theory Spec2Isabelle
  imports Main "HOL-Library.Sublist" "HOL-Library.AList"
begin

section \<open>JavaScript values\<close>

text \<open>
  The values the program handles are JSON values read from files, strings given on the
  command line, and \<^verbatim>\<open>undefined\<close>. A JSON value is a \<open>json\<close>; a JavaScript
  value that may be \<^verbatim>\<open>undefined\<close> is a \<open>json option\<close>, with \<open>None\<close> for
  \<^verbatim>\<open>undefined\<close>. An object is the list of its members in the order they were
  written; keys that are array indices, which JavaScript lists first, are not treated
  apart. Numbers are integers here. A string is the list of its UTF-16 code units, each a
  number from 0 to 65535; \<open>js\<close> gives the string of a literal of ASCII characters.
\<close>

type_synonym code_unit = int

type_synonym jstring = "code_unit list"

definition js :: "string \<Rightarrow> jstring" where
  "js s = map of_char s"

datatype json =
    JNull
  | JBool bool
  | JNum int
  | JStr jstring
  | JArr "json list"
  | JObj "(jstring \<times> json) list"

type_synonym jsval = "json option"

text \<open>Truthiness, as \<^verbatim>\<open>!x\<close>, \<^verbatim>\<open>x || y\<close> and \<^verbatim>\<open>x && y\<close> test it.\<close>

fun truthy :: "jsval \<Rightarrow> bool" where
  "truthy None = False"
| "truthy (Some JNull) = False"
| "truthy (Some (JBool b)) = b"
| "truthy (Some (JNum n)) = (n \<noteq> 0)"
| "truthy (Some (JStr s)) = (s \<noteq> [])"
| "truthy (Some (JArr xs)) = True"
| "truthy (Some (JObj kvs)) = True"

text \<open>\<^verbatim>\<open>x || y\<close>, and \<^verbatim>\<open>x || lit\<close> where the right operand is a literal.\<close>

definition jor :: "jsval \<Rightarrow> jsval \<Rightarrow> jsval" where
  "jor x y = (if truthy x then x else y)"

definition or_else :: "jsval \<Rightarrow> json \<Rightarrow> json" where
  "or_else x d = (case x of None \<Rightarrow> d | Some v \<Rightarrow> if truthy (Some v) then v else d)"

text \<open>Decimal numerals, the property names of array elements and string characters.\<close>

function show_nat :: "nat \<Rightarrow> jstring" where
  "show_nat n =
     (if n < 10 then [48 + int n]
      else show_nat (n div 10) @ [48 + int (n mod 10)])"
  by pat_completeness auto
termination
  by (relation "measure (\<lambda>n. n)") auto

text \<open>
  Building an object: \<open>assign base props\<close> sets the properties \<open>props\<close> one after the
  other on \<open>base\<close>, as a spread or the properties of an object literal do. A new key goes
  to the end; a key that is there keeps its place and takes the new value.
\<close>

definition assign :: "(jstring \<times> json) list \<Rightarrow> (jstring \<times> json) list \<Rightarrow> (jstring \<times> json) list" where
  "assign base props = fold (\<lambda>(k, v). AList.update k v) props base"

text \<open>
  The own enumerable properties of a value: what \<^verbatim>\<open>Object.entries\<close> lists and what
  the spread \<^verbatim>\<open>{...v}\<close> copies. Of two members of an object with the same key the
  later one gives the value, as in \<^verbatim>\<open>JSON.parse\<close>.
\<close>

fun entries :: "json \<Rightarrow> (jstring \<times> json) list" where
  "entries (JObj kvs) = assign [] kvs"
| "entries (JArr xs) = zip (map show_nat [0..<length xs]) xs"
| "entries (JStr s) = zip (map show_nat [0..<length s]) (map (\<lambda>c. JStr [c]) s)"
| "entries v = []"

text \<open>
  Property access \<^verbatim>\<open>v.k\<close>: the own enumerable property \<open>k\<close> of \<open>v\<close>, or
  \<^verbatim>\<open>undefined\<close>. The program reads no other property (\<^verbatim>\<open>length\<close>,
  say). On \<^verbatim>\<open>null\<close> and \<^verbatim>\<open>undefined\<close> the access raises a TypeError,
  which the callers below write out; the optional chain \<^verbatim>\<open>v?.k\<close> gives
  \<^verbatim>\<open>undefined\<close> there.
\<close>

definition get :: "json \<Rightarrow> jstring \<Rightarrow> jsval" where
  "get v k = map_of (entries v) k"

definition get_opt :: "jsval \<Rightarrow> jstring \<Rightarrow> jsval" where
  "get_opt v k = (case v of None \<Rightarrow> None | Some JNull \<Rightarrow> None | Some o' \<Rightarrow> get o' k)"

text \<open>The value of \<open>x\<close> when it is truthy: the branch \<^verbatim>\<open>if (x) return x\<close>.\<close>

definition if_truthy :: "jsval \<Rightarrow> json option" where
  "if_truthy x = (if truthy x then x else None)"

text \<open>\<^verbatim>\<open>typeof v === 'object'\<close>.\<close>

fun is_object :: "json \<Rightarrow> bool" where
  "is_object JNull = True"
| "is_object (JArr xs) = True"
| "is_object (JObj kvs) = True"
| "is_object v = False"

section \<open>Strings\<close>

text \<open>
  \<^verbatim>\<open>s.trim()\<close> strips the white space and the line terminators of ECMAScript from
  both ends: TAB, LF, VT, FF, CR, the space separators (category Zs) U+0020, U+00A0,
  U+1680, U+2000 to U+200A, U+202F, U+205F and U+3000, the separators U+2028 and U+2029,
  and U+FEFF.
\<close>

definition isWhitespace :: "code_unit \<Rightarrow> bool" where
  "isWhitespace c =
     (c \<in> set [0x09, 0x0A, 0x0B, 0x0C, 0x0D, 0x20, 0xA0, 0x1680, 0x2028, 0x2029, 0x202F,
                0x205F, 0x3000, 0xFEFF]
      \<or> (0x2000 \<le> c \<and> c \<le> 0x200A))"

definition trim :: "jstring \<Rightarrow> jstring" where
  "trim s = rev (dropWhile isWhitespace (rev (dropWhile isWhitespace s)))"

text \<open>
  \<^verbatim>\<open>s.toLowerCase()\<close> is the default case conversion of Unicode, applied to the
  code points of the string: a surrogate pair is one code point, any other code unit is
  its own. The data are those of Unicode 14.0. An entry \<open>(lo, hi, st, tlo)\<close> of
  \<open>lower_table\<close> maps every \<open>st\<close>-th code point from \<open>lo\<close> to \<open>hi\<close> to
  the code point as far above \<open>tlo\<close> as it is above \<open>lo\<close>. U+0130 has a lowercase
  of two code points. U+03A3, capital sigma, becomes the final sigma U+03C2 when a cased
  letter comes before it and none after it, case-ignorable code points skipped on both
  sides, and the small sigma U+03C3 otherwise; \<open>cased_table\<close> lists the cased code
  points that are not case-ignorable.
\<close>

definition lower_table :: "(int \<times> int \<times> int \<times> int) list" where
  "lower_table =
     [(0xC0, 0xD6, 1, 0xE0), (0xD8, 0xDE, 1, 0xF8), (0x100, 0x12E, 2, 0x101),
      (0x132, 0x136, 2, 0x133), (0x139, 0x147, 2, 0x13A), (0x14A, 0x176, 2, 0x14B),
      (0x178, 0x178, 1, 0xFF), (0x179, 0x17D, 2, 0x17A), (0x181, 0x181, 1, 0x253),
      (0x182, 0x184, 2, 0x183), (0x186, 0x186, 1, 0x254), (0x187, 0x187, 1, 0x188),
      (0x189, 0x18A, 1, 0x256), (0x18B, 0x18B, 1, 0x18C), (0x18E, 0x18E, 1, 0x1DD),
      (0x18F, 0x18F, 1, 0x259), (0x190, 0x190, 1, 0x25B), (0x191, 0x191, 1, 0x192),
      (0x193, 0x193, 1, 0x260), (0x194, 0x194, 1, 0x263), (0x196, 0x196, 1, 0x269),
      (0x197, 0x197, 1, 0x268), (0x198, 0x198, 1, 0x199), (0x19C, 0x19C, 1, 0x26F),
      (0x19D, 0x19D, 1, 0x272), (0x19F, 0x19F, 1, 0x275), (0x1A0, 0x1A4, 2, 0x1A1),
      (0x1A6, 0x1A6, 1, 0x280), (0x1A7, 0x1A7, 1, 0x1A8), (0x1A9, 0x1A9, 1, 0x283),
      (0x1AC, 0x1AC, 1, 0x1AD), (0x1AE, 0x1AE, 1, 0x288), (0x1AF, 0x1AF, 1, 0x1B0),
      (0x1B1, 0x1B2, 1, 0x28A), (0x1B3, 0x1B5, 2, 0x1B4), (0x1B7, 0x1B7, 1, 0x292),
      (0x1B8, 0x1B8, 1, 0x1B9), (0x1BC, 0x1BC, 1, 0x1BD), (0x1C4, 0x1C4, 1, 0x1C6),
      (0x1C5, 0x1C5, 1, 0x1C6), (0x1C7, 0x1C7, 1, 0x1C9), (0x1C8, 0x1C8, 1, 0x1C9),
      (0x1CA, 0x1CA, 1, 0x1CC), (0x1CB, 0x1DB, 2, 0x1CC), (0x1DE, 0x1EE, 2, 0x1DF),
      (0x1F1, 0x1F1, 1, 0x1F3), (0x1F2, 0x1F4, 2, 0x1F3), (0x1F6, 0x1F6, 1, 0x195),
      (0x1F7, 0x1F7, 1, 0x1BF), (0x1F8, 0x21E, 2, 0x1F9), (0x220, 0x220, 1, 0x19E),
      (0x222, 0x232, 2, 0x223), (0x23A, 0x23A, 1, 0x2C65), (0x23B, 0x23B, 1, 0x23C),
      (0x23D, 0x23D, 1, 0x19A), (0x23E, 0x23E, 1, 0x2C66), (0x241, 0x241, 1, 0x242),
      (0x243, 0x243, 1, 0x180), (0x244, 0x244, 1, 0x289), (0x245, 0x245, 1, 0x28C),
      (0x246, 0x24E, 2, 0x247), (0x370, 0x372, 2, 0x371), (0x376, 0x376, 1, 0x377),
      (0x37F, 0x37F, 1, 0x3F3), (0x386, 0x386, 1, 0x3AC), (0x388, 0x38A, 1, 0x3AD),
      (0x38C, 0x38C, 1, 0x3CC), (0x38E, 0x38F, 1, 0x3CD), (0x391, 0x3A1, 1, 0x3B1),
      (0x3A3, 0x3AB, 1, 0x3C3), (0x3CF, 0x3CF, 1, 0x3D7), (0x3D8, 0x3EE, 2, 0x3D9),
      (0x3F4, 0x3F4, 1, 0x3B8), (0x3F7, 0x3F7, 1, 0x3F8), (0x3F9, 0x3F9, 1, 0x3F2),
      (0x3FA, 0x3FA, 1, 0x3FB), (0x3FD, 0x3FF, 1, 0x37B), (0x400, 0x40F, 1, 0x450),
      (0x410, 0x42F, 1, 0x430), (0x460, 0x480, 2, 0x461), (0x48A, 0x4BE, 2, 0x48B),
      (0x4C0, 0x4C0, 1, 0x4CF), (0x4C1, 0x4CD, 2, 0x4C2), (0x4D0, 0x52E, 2, 0x4D1),
      (0x531, 0x556, 1, 0x561), (0x10A0, 0x10C5, 1, 0x2D00), (0x10C7, 0x10C7, 1, 0x2D27),
      (0x10CD, 0x10CD, 1, 0x2D2D), (0x13A0, 0x13EF, 1, 0xAB70), (0x13F0, 0x13F5, 1, 0x13F8),
      (0x1C90, 0x1CBA, 1, 0x10D0), (0x1CBD, 0x1CBF, 1, 0x10FD), (0x1E00, 0x1E94, 2, 0x1E01),
      (0x1E9E, 0x1E9E, 1, 0xDF), (0x1EA0, 0x1EFE, 2, 0x1EA1), (0x1F08, 0x1F0F, 1, 0x1F00),
      (0x1F18, 0x1F1D, 1, 0x1F10), (0x1F28, 0x1F2F, 1, 0x1F20), (0x1F38, 0x1F3F, 1, 0x1F30),
      (0x1F48, 0x1F4D, 1, 0x1F40), (0x1F59, 0x1F5F, 2, 0x1F51), (0x1F68, 0x1F6F, 1, 0x1F60),
      (0x1F88, 0x1F8F, 1, 0x1F80), (0x1F98, 0x1F9F, 1, 0x1F90), (0x1FA8, 0x1FAF, 1, 0x1FA0),
      (0x1FB8, 0x1FB9, 1, 0x1FB0), (0x1FBA, 0x1FBB, 1, 0x1F70), (0x1FBC, 0x1FBC, 1, 0x1FB3),
      (0x1FC8, 0x1FCB, 1, 0x1F72), (0x1FCC, 0x1FCC, 1, 0x1FC3), (0x1FD8, 0x1FD9, 1, 0x1FD0),
      (0x1FDA, 0x1FDB, 1, 0x1F76), (0x1FE8, 0x1FE9, 1, 0x1FE0), (0x1FEA, 0x1FEB, 1, 0x1F7A),
      (0x1FEC, 0x1FEC, 1, 0x1FE5), (0x1FF8, 0x1FF9, 1, 0x1F78), (0x1FFA, 0x1FFB, 1, 0x1F7C),
      (0x1FFC, 0x1FFC, 1, 0x1FF3), (0x2126, 0x2126, 1, 0x3C9), (0x212A, 0x212A, 1, 0x6B),
      (0x212B, 0x212B, 1, 0xE5), (0x2132, 0x2132, 1, 0x214E), (0x2160, 0x216F, 1, 0x2170),
      (0x2183, 0x2183, 1, 0x2184), (0x24B6, 0x24CF, 1, 0x24D0), (0x2C00, 0x2C2F, 1, 0x2C30),
      (0x2C60, 0x2C60, 1, 0x2C61), (0x2C62, 0x2C62, 1, 0x26B), (0x2C63, 0x2C63, 1, 0x1D7D),
      (0x2C64, 0x2C64, 1, 0x27D), (0x2C67, 0x2C6B, 2, 0x2C68), (0x2C6D, 0x2C6D, 1, 0x251),
      (0x2C6E, 0x2C6E, 1, 0x271), (0x2C6F, 0x2C6F, 1, 0x250), (0x2C70, 0x2C70, 1, 0x252),
      (0x2C72, 0x2C72, 1, 0x2C73), (0x2C75, 0x2C75, 1, 0x2C76), (0x2C7E, 0x2C7F, 1, 0x23F),
      (0x2C80, 0x2CE2, 2, 0x2C81), (0x2CEB, 0x2CED, 2, 0x2CEC), (0x2CF2, 0x2CF2, 1, 0x2CF3),
      (0xA640, 0xA66C, 2, 0xA641), (0xA680, 0xA69A, 2, 0xA681), (0xA722, 0xA72E, 2, 0xA723),
      (0xA732, 0xA76E, 2, 0xA733), (0xA779, 0xA77B, 2, 0xA77A), (0xA77D, 0xA77D, 1, 0x1D79),
      (0xA77E, 0xA786, 2, 0xA77F), (0xA78B, 0xA78B, 1, 0xA78C), (0xA78D, 0xA78D, 1, 0x265),
      (0xA790, 0xA792, 2, 0xA791), (0xA796, 0xA7A8, 2, 0xA797), (0xA7AA, 0xA7AA, 1, 0x266),
      (0xA7AB, 0xA7AB, 1, 0x25C), (0xA7AC, 0xA7AC, 1, 0x261), (0xA7AD, 0xA7AD, 1, 0x26C),
      (0xA7AE, 0xA7AE, 1, 0x26A), (0xA7B0, 0xA7B0, 1, 0x29E), (0xA7B1, 0xA7B1, 1, 0x287),
      (0xA7B2, 0xA7B2, 1, 0x29D), (0xA7B3, 0xA7B3, 1, 0xAB53), (0xA7B4, 0xA7C2, 2, 0xA7B5),
      (0xA7C4, 0xA7C4, 1, 0xA794), (0xA7C5, 0xA7C5, 1, 0x282), (0xA7C6, 0xA7C6, 1, 0x1D8E),
      (0xA7C7, 0xA7C9, 2, 0xA7C8), (0xA7D0, 0xA7D0, 1, 0xA7D1), (0xA7D6, 0xA7D8, 2, 0xA7D7),
      (0xA7F5, 0xA7F5, 1, 0xA7F6), (0xFF21, 0xFF3A, 1, 0xFF41), (0x10400, 0x10427, 1, 0x10428),
      (0x104B0, 0x104D3, 1, 0x104D8), (0x10570, 0x1057A, 1, 0x10597), (0x1057C, 0x1058A, 1, 0x105A3),
      (0x1058C, 0x10592, 1, 0x105B3), (0x10594, 0x10595, 1, 0x105BB), (0x10C80, 0x10CB2, 1, 0x10CC0),
      (0x118A0, 0x118BF, 1, 0x118C0), (0x16E40, 0x16E5F, 1, 0x16E60), (0x1E900, 0x1E921, 1, 0x1E922)]"

definition case_ignorable_table :: "(int \<times> int) list" where
  "case_ignorable_table =
     [(0x27, 0x27), (0x2E, 0x2E), (0x3A, 0x3A), (0x5E, 0x5E), (0x60, 0x60),
      (0xA8, 0xA8), (0xAD, 0xAD), (0xAF, 0xAF), (0xB4, 0xB4), (0xB7, 0xB8),
      (0x2B0, 0x36F), (0x374, 0x375), (0x37A, 0x37A), (0x384, 0x385), (0x387, 0x387),
      (0x483, 0x489), (0x559, 0x559), (0x55F, 0x55F), (0x591, 0x5BD), (0x5BF, 0x5BF),
      (0x5C1, 0x5C2), (0x5C4, 0x5C5), (0x5C7, 0x5C7), (0x5F4, 0x5F4), (0x600, 0x605),
      (0x610, 0x61A), (0x61C, 0x61C), (0x640, 0x640), (0x64B, 0x65F), (0x670, 0x670),
      (0x6D6, 0x6DD), (0x6DF, 0x6E8), (0x6EA, 0x6ED), (0x70F, 0x70F), (0x711, 0x711),
      (0x730, 0x74A), (0x7A6, 0x7B0), (0x7EB, 0x7F5), (0x7FA, 0x7FA), (0x7FD, 0x7FD),
      (0x816, 0x82D), (0x859, 0x85B), (0x888, 0x888), (0x890, 0x891), (0x898, 0x89F),
      (0x8C9, 0x902), (0x93A, 0x93A), (0x93C, 0x93C), (0x941, 0x948), (0x94D, 0x94D),
      (0x951, 0x957), (0x962, 0x963), (0x971, 0x971), (0x981, 0x981), (0x9BC, 0x9BC),
      (0x9C1, 0x9C4), (0x9CD, 0x9CD), (0x9E2, 0x9E3), (0x9FE, 0x9FE), (0xA01, 0xA02),
      (0xA3C, 0xA3C), (0xA41, 0xA42), (0xA47, 0xA48), (0xA4B, 0xA4D), (0xA51, 0xA51),
      (0xA70, 0xA71), (0xA75, 0xA75), (0xA81, 0xA82), (0xABC, 0xABC), (0xAC1, 0xAC5),
      (0xAC7, 0xAC8), (0xACD, 0xACD), (0xAE2, 0xAE3), (0xAFA, 0xAFF), (0xB01, 0xB01),
      (0xB3C, 0xB3C), (0xB3F, 0xB3F), (0xB41, 0xB44), (0xB4D, 0xB4D), (0xB55, 0xB56),
      (0xB62, 0xB63), (0xB82, 0xB82), (0xBC0, 0xBC0), (0xBCD, 0xBCD), (0xC00, 0xC00),
      (0xC04, 0xC04), (0xC3C, 0xC3C), (0xC3E, 0xC40), (0xC46, 0xC48), (0xC4A, 0xC4D),
      (0xC55, 0xC56), (0xC62, 0xC63), (0xC81, 0xC81), (0xCBC, 0xCBC), (0xCBF, 0xCBF),
      (0xCC6, 0xCC6), (0xCCC, 0xCCD), (0xCE2, 0xCE3), (0xD00, 0xD01), (0xD3B, 0xD3C),
      (0xD41, 0xD44), (0xD4D, 0xD4D), (0xD62, 0xD63), (0xD81, 0xD81), (0xDCA, 0xDCA),
      (0xDD2, 0xDD4), (0xDD6, 0xDD6), (0xE31, 0xE31), (0xE34, 0xE3A), (0xE46, 0xE4E),
      (0xEB1, 0xEB1), (0xEB4, 0xEBC), (0xEC6, 0xEC6), (0xEC8, 0xECD), (0xF18, 0xF19),
      (0xF35, 0xF35), (0xF37, 0xF37), (0xF39, 0xF39), (0xF71, 0xF7E), (0xF80, 0xF84),
      (0xF86, 0xF87), (0xF8D, 0xF97), (0xF99, 0xFBC), (0xFC6, 0xFC6), (0x102D, 0x1030),
      (0x1032, 0x1037), (0x1039, 0x103A), (0x103D, 0x103E), (0x1058, 0x1059), (0x105E, 0x1060),
      (0x1071, 0x1074), (0x1082, 0x1082), (0x1085, 0x1086), (0x108D, 0x108D), (0x109D, 0x109D),
      (0x10FC, 0x10FC), (0x135D, 0x135F), (0x1712, 0x1714), (0x1732, 0x1733), (0x1752, 0x1753),
      (0x1772, 0x1773), (0x17B4, 0x17B5), (0x17B7, 0x17BD), (0x17C6, 0x17C6), (0x17C9, 0x17D3),
      (0x17D7, 0x17D7), (0x17DD, 0x17DD), (0x180B, 0x180F), (0x1843, 0x1843), (0x1885, 0x1886),
      (0x18A9, 0x18A9), (0x1920, 0x1922), (0x1927, 0x1928), (0x1932, 0x1932), (0x1939, 0x193B),
      (0x1A17, 0x1A18), (0x1A1B, 0x1A1B), (0x1A56, 0x1A56), (0x1A58, 0x1A5E), (0x1A60, 0x1A60),
      (0x1A62, 0x1A62), (0x1A65, 0x1A6C), (0x1A73, 0x1A7C), (0x1A7F, 0x1A7F), (0x1AA7, 0x1AA7),
      (0x1AB0, 0x1ACE), (0x1B00, 0x1B03), (0x1B34, 0x1B34), (0x1B36, 0x1B3A), (0x1B3C, 0x1B3C),
      (0x1B42, 0x1B42), (0x1B6B, 0x1B73), (0x1B80, 0x1B81), (0x1BA2, 0x1BA5), (0x1BA8, 0x1BA9),
      (0x1BAB, 0x1BAD), (0x1BE6, 0x1BE6), (0x1BE8, 0x1BE9), (0x1BED, 0x1BED), (0x1BEF, 0x1BF1),
      (0x1C2C, 0x1C33), (0x1C36, 0x1C37), (0x1C78, 0x1C7D), (0x1CD0, 0x1CD2), (0x1CD4, 0x1CE0),
      (0x1CE2, 0x1CE8), (0x1CED, 0x1CED), (0x1CF4, 0x1CF4), (0x1CF8, 0x1CF9), (0x1D2C, 0x1D6A),
      (0x1D78, 0x1D78), (0x1D9B, 0x1DFF), (0x1FBD, 0x1FBD), (0x1FBF, 0x1FC1), (0x1FCD, 0x1FCF),
      (0x1FDD, 0x1FDF), (0x1FED, 0x1FEF), (0x1FFD, 0x1FFE), (0x200B, 0x200F), (0x2018, 0x2019),
      (0x2024, 0x2024), (0x2027, 0x2027), (0x202A, 0x202E), (0x2060, 0x2064), (0x2066, 0x206F),
      (0x2071, 0x2071), (0x207F, 0x207F), (0x2090, 0x209C), (0x20D0, 0x20F0), (0x2C7C, 0x2C7D),
      (0x2CEF, 0x2CF1), (0x2D6F, 0x2D6F), (0x2D7F, 0x2D7F), (0x2DE0, 0x2DFF), (0x2E2F, 0x2E2F),
      (0x3005, 0x3005), (0x302A, 0x302D), (0x3031, 0x3035), (0x303B, 0x303B), (0x3099, 0x309E),
      (0x30FC, 0x30FE), (0xA015, 0xA015), (0xA4F8, 0xA4FD), (0xA60C, 0xA60C), (0xA66F, 0xA672),
      (0xA674, 0xA67D), (0xA67F, 0xA67F), (0xA69C, 0xA69F), (0xA6F0, 0xA6F1), (0xA700, 0xA721),
      (0xA770, 0xA770), (0xA788, 0xA78A), (0xA7F2, 0xA7F4), (0xA7F8, 0xA7F9), (0xA802, 0xA802),
      (0xA806, 0xA806), (0xA80B, 0xA80B), (0xA825, 0xA826), (0xA82C, 0xA82C), (0xA8C4, 0xA8C5),
      (0xA8E0, 0xA8F1), (0xA8FF, 0xA8FF), (0xA926, 0xA92D), (0xA947, 0xA951), (0xA980, 0xA982),
      (0xA9B3, 0xA9B3), (0xA9B6, 0xA9B9), (0xA9BC, 0xA9BD), (0xA9CF, 0xA9CF), (0xA9E5, 0xA9E6),
      (0xAA29, 0xAA2E), (0xAA31, 0xAA32), (0xAA35, 0xAA36), (0xAA43, 0xAA43), (0xAA4C, 0xAA4C),
      (0xAA70, 0xAA70), (0xAA7C, 0xAA7C), (0xAAB0, 0xAAB0), (0xAAB2, 0xAAB4), (0xAAB7, 0xAAB8),
      (0xAABE, 0xAABF), (0xAAC1, 0xAAC1), (0xAADD, 0xAADD), (0xAAEC, 0xAAED), (0xAAF3, 0xAAF4),
      (0xAAF6, 0xAAF6), (0xAB5B, 0xAB5F), (0xAB69, 0xAB6B), (0xABE5, 0xABE5), (0xABE8, 0xABE8),
      (0xABED, 0xABED), (0xFB1E, 0xFB1E), (0xFBB2, 0xFBC2), (0xFE00, 0xFE0F), (0xFE13, 0xFE13),
      (0xFE20, 0xFE2F), (0xFE52, 0xFE52), (0xFE55, 0xFE55), (0xFEFF, 0xFEFF), (0xFF07, 0xFF07),
      (0xFF0E, 0xFF0E), (0xFF1A, 0xFF1A), (0xFF3E, 0xFF3E), (0xFF40, 0xFF40), (0xFF70, 0xFF70),
      (0xFF9E, 0xFF9F), (0xFFE3, 0xFFE3), (0xFFF9, 0xFFFB), (0x101FD, 0x101FD), (0x102E0, 0x102E0),
      (0x10376, 0x1037A), (0x10780, 0x10785), (0x10787, 0x107B0), (0x107B2, 0x107BA), (0x10A01, 0x10A03),
      (0x10A05, 0x10A06), (0x10A0C, 0x10A0F), (0x10A38, 0x10A3A), (0x10A3F, 0x10A3F), (0x10AE5, 0x10AE6),
      (0x10D24, 0x10D27), (0x10EAB, 0x10EAC), (0x10F46, 0x10F50), (0x10F82, 0x10F85), (0x11001, 0x11001),
      (0x11038, 0x11046), (0x11070, 0x11070), (0x11073, 0x11074), (0x1107F, 0x11081), (0x110B3, 0x110B6),
      (0x110B9, 0x110BA), (0x110BD, 0x110BD), (0x110C2, 0x110C2), (0x110CD, 0x110CD), (0x11100, 0x11102),
      (0x11127, 0x1112B), (0x1112D, 0x11134), (0x11173, 0x11173), (0x11180, 0x11181), (0x111B6, 0x111BE),
      (0x111C9, 0x111CC), (0x111CF, 0x111CF), (0x1122F, 0x11231), (0x11234, 0x11234), (0x11236, 0x11237),
      (0x1123E, 0x1123E), (0x112DF, 0x112DF), (0x112E3, 0x112EA), (0x11300, 0x11301), (0x1133B, 0x1133C),
      (0x11340, 0x11340), (0x11366, 0x1136C), (0x11370, 0x11374), (0x11438, 0x1143F), (0x11442, 0x11444),
      (0x11446, 0x11446), (0x1145E, 0x1145E), (0x114B3, 0x114B8), (0x114BA, 0x114BA), (0x114BF, 0x114C0),
      (0x114C2, 0x114C3), (0x115B2, 0x115B5), (0x115BC, 0x115BD), (0x115BF, 0x115C0), (0x115DC, 0x115DD),
      (0x11633, 0x1163A), (0x1163D, 0x1163D), (0x1163F, 0x11640), (0x116AB, 0x116AB), (0x116AD, 0x116AD),
      (0x116B0, 0x116B5), (0x116B7, 0x116B7), (0x1171D, 0x1171F), (0x11722, 0x11725), (0x11727, 0x1172B),
      (0x1182F, 0x11837), (0x11839, 0x1183A), (0x1193B, 0x1193C), (0x1193E, 0x1193E), (0x11943, 0x11943),
      (0x119D4, 0x119D7), (0x119DA, 0x119DB), (0x119E0, 0x119E0), (0x11A01, 0x11A0A), (0x11A33, 0x11A38),
      (0x11A3B, 0x11A3E), (0x11A47, 0x11A47), (0x11A51, 0x11A56), (0x11A59, 0x11A5B), (0x11A8A, 0x11A96),
      (0x11A98, 0x11A99), (0x11C30, 0x11C36), (0x11C38, 0x11C3D), (0x11C3F, 0x11C3F), (0x11C92, 0x11CA7),
      (0x11CAA, 0x11CB0), (0x11CB2, 0x11CB3), (0x11CB5, 0x11CB6), (0x11D31, 0x11D36), (0x11D3A, 0x11D3A),
      (0x11D3C, 0x11D3D), (0x11D3F, 0x11D45), (0x11D47, 0x11D47), (0x11D90, 0x11D91), (0x11D95, 0x11D95),
      (0x11D97, 0x11D97), (0x11EF3, 0x11EF4), (0x13430, 0x13438), (0x16AF0, 0x16AF4), (0x16B30, 0x16B36),
      (0x16B40, 0x16B43), (0x16F4F, 0x16F4F), (0x16F8F, 0x16F9F), (0x16FE0, 0x16FE1), (0x16FE3, 0x16FE4),
      (0x1AFF0, 0x1AFF3), (0x1AFF5, 0x1AFFB), (0x1AFFD, 0x1AFFE), (0x1BC9D, 0x1BC9E), (0x1BCA0, 0x1BCA3),
      (0x1CF00, 0x1CF2D), (0x1CF30, 0x1CF46), (0x1D167, 0x1D169), (0x1D173, 0x1D182), (0x1D185, 0x1D18B),
      (0x1D1AA, 0x1D1AD), (0x1D242, 0x1D244), (0x1DA00, 0x1DA36), (0x1DA3B, 0x1DA6C), (0x1DA75, 0x1DA75),
      (0x1DA84, 0x1DA84), (0x1DA9B, 0x1DA9F), (0x1DAA1, 0x1DAAF), (0x1E000, 0x1E006), (0x1E008, 0x1E018),
      (0x1E01B, 0x1E021), (0x1E023, 0x1E024), (0x1E026, 0x1E02A), (0x1E130, 0x1E13D), (0x1E2AE, 0x1E2AE),
      (0x1E2EC, 0x1E2EF), (0x1E8D0, 0x1E8D6), (0x1E944, 0x1E94B), (0x1F3FB, 0x1F3FF), (0xE0001, 0xE0001),
      (0xE0020, 0xE007F), (0xE0100, 0xE01EF)]"

definition cased_table :: "(int \<times> int) list" where
  "cased_table =
     [(0x41, 0x5A), (0x61, 0x7A), (0xAA, 0xAA), (0xB5, 0xB5), (0xBA, 0xBA),
      (0xC0, 0xD6), (0xD8, 0xF6), (0xF8, 0x1BA), (0x1BC, 0x1BF), (0x1C4, 0x293),
      (0x295, 0x2AF), (0x370, 0x373), (0x376, 0x377), (0x37B, 0x37D), (0x37F, 0x37F),
      (0x386, 0x386), (0x388, 0x38A), (0x38C, 0x38C), (0x38E, 0x3A1), (0x3A3, 0x3F5),
      (0x3F7, 0x481), (0x48A, 0x52F), (0x531, 0x556), (0x560, 0x588), (0x10A0, 0x10C5),
      (0x10C7, 0x10C7), (0x10CD, 0x10CD), (0x10D0, 0x10FA), (0x10FD, 0x10FF), (0x13A0, 0x13F5),
      (0x13F8, 0x13FD), (0x1C80, 0x1C88), (0x1C90, 0x1CBA), (0x1CBD, 0x1CBF), (0x1D00, 0x1D2B),
      (0x1D6B, 0x1D77), (0x1D79, 0x1D9A), (0x1E00, 0x1F15), (0x1F18, 0x1F1D), (0x1F20, 0x1F45),
      (0x1F48, 0x1F4D), (0x1F50, 0x1F57), (0x1F59, 0x1F59), (0x1F5B, 0x1F5B), (0x1F5D, 0x1F5D),
      (0x1F5F, 0x1F7D), (0x1F80, 0x1FB4), (0x1FB6, 0x1FBC), (0x1FBE, 0x1FBE), (0x1FC2, 0x1FC4),
      (0x1FC6, 0x1FCC), (0x1FD0, 0x1FD3), (0x1FD6, 0x1FDB), (0x1FE0, 0x1FEC), (0x1FF2, 0x1FF4),
      (0x1FF6, 0x1FFC), (0x2102, 0x2102), (0x2107, 0x2107), (0x210A, 0x2113), (0x2115, 0x2115),
      (0x2119, 0x211D), (0x2124, 0x2124), (0x2126, 0x2126), (0x2128, 0x2128), (0x212A, 0x212D),
      (0x212F, 0x2134), (0x2139, 0x2139), (0x213C, 0x213F), (0x2145, 0x2149), (0x214E, 0x214E),
      (0x2160, 0x217F), (0x2183, 0x2184), (0x24B6, 0x24E9), (0x2C00, 0x2C7B), (0x2C7E, 0x2CE4),
      (0x2CEB, 0x2CEE), (0x2CF2, 0x2CF3), (0x2D00, 0x2D25), (0x2D27, 0x2D27), (0x2D2D, 0x2D2D),
      (0xA640, 0xA66D), (0xA680, 0xA69B), (0xA722, 0xA76F), (0xA771, 0xA787), (0xA78B, 0xA78E),
      (0xA790, 0xA7CA), (0xA7D0, 0xA7D1), (0xA7D3, 0xA7D3), (0xA7D5, 0xA7D9), (0xA7F5, 0xA7F6),
      (0xA7FA, 0xA7FA), (0xAB30, 0xAB5A), (0xAB60, 0xAB68), (0xAB70, 0xABBF), (0xFB00, 0xFB06),
      (0xFB13, 0xFB17), (0xFF21, 0xFF3A), (0xFF41, 0xFF5A), (0x10400, 0x1044F), (0x104B0, 0x104D3),
      (0x104D8, 0x104FB), (0x10570, 0x1057A), (0x1057C, 0x1058A), (0x1058C, 0x10592), (0x10594, 0x10595),
      (0x10597, 0x105A1), (0x105A3, 0x105B1), (0x105B3, 0x105B9), (0x105BB, 0x105BC), (0x10C80, 0x10CB2),
      (0x10CC0, 0x10CF2), (0x118A0, 0x118DF), (0x16E40, 0x16E7F), (0x1D400, 0x1D454), (0x1D456, 0x1D49C),
      (0x1D49E, 0x1D49F), (0x1D4A2, 0x1D4A2), (0x1D4A5, 0x1D4A6), (0x1D4A9, 0x1D4AC), (0x1D4AE, 0x1D4B9),
      (0x1D4BB, 0x1D4BB), (0x1D4BD, 0x1D4C3), (0x1D4C5, 0x1D505), (0x1D507, 0x1D50A), (0x1D50D, 0x1D514),
      (0x1D516, 0x1D51C), (0x1D51E, 0x1D539), (0x1D53B, 0x1D53E), (0x1D540, 0x1D544), (0x1D546, 0x1D546),
      (0x1D54A, 0x1D550), (0x1D552, 0x1D6A5), (0x1D6A8, 0x1D6C0), (0x1D6C2, 0x1D6DA), (0x1D6DC, 0x1D6FA),
      (0x1D6FC, 0x1D714), (0x1D716, 0x1D734), (0x1D736, 0x1D74E), (0x1D750, 0x1D76E), (0x1D770, 0x1D788),
      (0x1D78A, 0x1D7A8), (0x1D7AA, 0x1D7C2), (0x1D7C4, 0x1D7CB), (0x1DF00, 0x1DF09), (0x1DF0B, 0x1DF1E),
      (0x1E900, 0x1E943), (0x1F130, 0x1F149), (0x1F150, 0x1F169), (0x1F170, 0x1F189)]"

definition in_ranges :: "int \<Rightarrow> (int \<times> int) list \<Rightarrow> bool" where
  "in_ranges c rs = list_ex (\<lambda>(lo, hi). lo \<le> c \<and> c \<le> hi) rs"

definition case_ignorable :: "int \<Rightarrow> bool" where
  "case_ignorable c = in_ranges c case_ignorable_table"

definition cased :: "int \<Rightarrow> bool" where
  "cased c = in_ranges c cased_table"

definition lower_cp :: "int \<Rightarrow> int list" where
  "lower_cp c =
     (if c < 0x80 then [if 0x41 \<le> c \<and> c \<le> 0x5A then c + 0x20 else c]
      else if c = 0x130 then [0x69, 0x307]
      else case find (\<lambda>(lo, hi, st, tlo). lo \<le> c \<and> c \<le> hi \<and> (c - lo) mod st = 0)
                     lower_table of
             None \<Rightarrow> [c]
           | Some (lo, hi, st, tlo) \<Rightarrow> [tlo + (c - lo)])"

text \<open>\<open>prev\<close> holds the code points before the sigma, the nearest first.\<close>

definition final_sigma :: "int list \<Rightarrow> int list \<Rightarrow> bool" where
  "final_sigma prev rest =
     ((case dropWhile case_ignorable prev of [] \<Rightarrow> False | c # cs \<Rightarrow> cased c)
      \<and> (case dropWhile case_ignorable rest of [] \<Rightarrow> True | c # cs \<Rightarrow> \<not> cased c))"

fun lower_cps :: "int list \<Rightarrow> int list \<Rightarrow> int list" where
  "lower_cps prev [] = []"
| "lower_cps prev (c # rest) =
     (if c = 0x3A3 then [if final_sigma prev rest then 0x3C2 else 0x3C3]
      else lower_cp c)
     @ lower_cps (c # prev) rest"

fun code_points :: "jstring \<Rightarrow> int list" where
  "code_points (h # l # s) =
     (if 0xD800 \<le> h \<and> h \<le> 0xDBFF \<and> 0xDC00 \<le> l \<and> l \<le> 0xDFFF
      then (0x10000 + (h - 0xD800) * 0x400 + (l - 0xDC00)) # code_points s
      else h # code_points (l # s))"
| "code_points s = s"

definition code_units :: "int \<Rightarrow> jstring" where
  "code_units c =
     (if c < 0x10000 then [c]
      else [0xD800 + (c - 0x10000) div 0x400, 0xDC00 + (c - 0x10000) mod 0x400])"

definition toLowerCase :: "jstring \<Rightarrow> jstring" where
  "toLowerCase s = concat (map code_units (lower_cps [] (code_points s)))"

text \<open>\<^verbatim>\<open>s.split(c)\<close> for a one-character separator: never empty, one piece more than
  there are separators.\<close>

fun split_on :: "code_unit \<Rightarrow> jstring \<Rightarrow> jstring list" where
  "split_on c [] = [[]]"
| "split_on c (x # xs) =
     (if x = c then [] # split_on c xs
      else (case split_on c xs of
              [] \<Rightarrow> [[x]]
            | w # ws \<Rightarrow> (x # w) # ws))"

text \<open>\<^verbatim>\<open>xs.join(sep)\<close>.\<close>

fun join :: "jstring \<Rightarrow> jstring list \<Rightarrow> jstring" where
  "join sep [] = []"
| "join sep [x] = x"
| "join sep (x # y # ys) = x @ sep @ join sep (y # ys)"

text \<open>\<^verbatim>\<open>s.lastIndexOf(c)\<close>: the index of the last occurrence, or -1.\<close>

fun lastIndexOf :: "code_unit \<Rightarrow> jstring \<Rightarrow> int" where
  "lastIndexOf c [] = -1"
| "lastIndexOf c (x # xs) =
     (let i = lastIndexOf c xs in
      if 0 \<le> i then i + 1 else if x = c then 0 else -1)"

section \<open>Agents: names, packages and resolution\<close>

datatype error =
    TypeError
  | SyntaxError
  | ENOENT
  | EISDIR
  | ENOTDIR
  | EEXIST
  | NoAgentSpecified
  | UnsupportedAgent jstring
  | NoPackageConfigured jstring
  | ConfigParseError "jstring list" error
  | InstallFailure jstring "jstring list" int
  | SpawnFailure

definition SUPPORTED_AGENTS :: "jstring list" where
  "SUPPORTED_AGENTS = [js ''codex'', js ''claude'', js ''gemini'']"

definition DEFAULT_PACKAGES :: "(jstring \<times> jstring) list" where
  "DEFAULT_PACKAGES =
     [(js ''codex'', js ''@openai/codex''),
      (js ''claude'', js ''@anthropic-ai/claude-code''),
      (js ''gemini'', js ''@google/gemini-cli'')]"

text \<open>\<^verbatim>\<open>(name || '').trim().toLowerCase()\<close>: a truthy value that is no string has no
  \<^verbatim>\<open>trim\<close>.\<close>

definition normalizeAgentName :: "jsval \<Rightarrow> error + jstring" where
  "normalizeAgentName name =
     (if truthy name then
        (case name of
           Some (JStr s) \<Rightarrow> Inr (toLowerCase (trim s))
         | _ \<Rightarrow> Inl TypeError)
      else Inr (toLowerCase (trim [])))"

definition assertSupportedAgent :: "jstring \<Rightarrow> error + unit" where
  "assertSupportedAgent name =
     (if name \<in> set SUPPORTED_AGENTS then Inr () else Inl (UnsupportedAgent name))"

text \<open>
  \<^verbatim>\<open>resolvePackageName(name, {packageOverride, configPackage, statePackage})\<close>,
  the three sources passed in that order. The callers pass supported names only.
\<close>

definition resolvePackageName :: "jstring \<Rightarrow> jsval \<Rightarrow> jsval \<Rightarrow> jsval \<Rightarrow> error + json" where
  "resolvePackageName name pkgOverride configPackage statePackage =
     (case if_truthy pkgOverride of
        Some v \<Rightarrow> Inr v
      | None \<Rightarrow>
     (case if_truthy configPackage of
        Some v \<Rightarrow> Inr v
      | None \<Rightarrow>
     (case if_truthy statePackage of
        Some v \<Rightarrow> Inr v
      | None \<Rightarrow>
     (case map_of DEFAULT_PACKAGES name of
        Some builtin \<Rightarrow> Inr (JStr builtin)
      | None \<Rightarrow> Inl (NoPackageConfigured name)))))"

text \<open>The result of \<^verbatim>\<open>parseAgentSpec\<close>: \<open>None\<close> is \<^verbatim>\<open>null\<close>, and a spec
  without a version has no \<^verbatim>\<open>version\<close> property.\<close>

record agent_spec =
  spec_name :: jstring
  spec_version :: "jstring option"

definition parseAgentSpec :: "jsval \<Rightarrow> error + agent_spec option" where
  "parseAgentSpec input =
     (if \<not> truthy input then Inr None
      else case input of
        Some (JStr s) \<Rightarrow>
          (let trimmed = trim s in
           if trimmed = [] then Inr None
           else
             let atIndex = lastIndexOf 0x40 trimmed in
             if atIndex > 0 then
               (let name = toLowerCase (trim (take (nat atIndex) trimmed));
                    version = drop (nat (atIndex + 1)) trimmed
                in if name = [] then Inr None
                   else if version = [] then Inr (Some \<lparr>spec_name = name, spec_version = None\<rparr>)
                   else Inr (Some \<lparr>spec_name = name, spec_version = Some version\<rparr>))
             else
               (let name = toLowerCase (trim trimmed)
                in if name = [] then Inr None
                   else Inr (Some \<lparr>spec_name = name, spec_version = None\<rparr>)))
      | _ \<Rightarrow> Inl TypeError)"

definition parseArgsString :: "jsval \<Rightarrow> jstring list" where
  "parseArgsString argString =
     (case argString of
        Some (JStr s) \<Rightarrow>
          (if s = [] then []
           else filter (\<lambda>part. part \<noteq> []) (map trim (split_on 0x20 s)))
      | _ \<Rightarrow> [])"

text \<open>
  The project configuration as \<^verbatim>\<open>loadProjectConfig\<close> builds it:
  \<^verbatim>\<open>default\<close> is \<^verbatim>\<open>null\<close> or a name, \<^verbatim>\<open>agents\<close> maps a name to its
  section, \<^verbatim>\<open>path\<close> is the file it was read from.
\<close>

record agent_config =
  cfg_package :: json
  cfg_version :: json
  cfg_args :: json

record config =
  default_name :: json
  agents :: "jstring \<rightharpoonup> agent_config"
  path :: "jstring list option"

record overrides =
  packageOverride :: jsval
  argsOverride :: jsval

text \<open>A target; its \<^verbatim>\<open>name\<close> is always a string.\<close>

record 'v target =
  name :: jstring
  package :: 'v
  version :: 'v
  args :: 'v

text \<open>\<^verbatim>\<open>parsed?.name\<close> and \<^verbatim>\<open>parsed?.version\<close>.\<close>

definition parsed_name :: "agent_spec option \<Rightarrow> jsval" where
  "parsed_name parsed = map_option (\<lambda>p. JStr (spec_name p)) parsed"

definition parsed_version :: "agent_spec option \<Rightarrow> jsval" where
  "parsed_version parsed =
     (case parsed of None \<Rightarrow> None | Some p \<Rightarrow> map_option JStr (spec_version p))"

text \<open>
  \<^verbatim>\<open>state.current && normalizeAgentName(state.current.name) === name ? state.current : null\<close>.
  Reading \<^verbatim>\<open>state.current\<close> raises a TypeError when the state is \<^verbatim>\<open>null\<close>.
\<close>

definition currentForAgent :: "json \<Rightarrow> jstring \<Rightarrow> error + json" where
  "currentForAgent state nm =
     (if state = JNull then Inl TypeError
      else case get state (js ''current'') of
        None \<Rightarrow> Inr JNull
      | Some cur \<Rightarrow>
          if \<not> truthy (Some cur) then Inr JNull
          else (case normalizeAgentName (get cur (js ''name'')) of
                  Inl e \<Rightarrow> Inl e
                | Inr n \<Rightarrow> Inr (if n = nm then cur else JNull)))"

text \<open>
  \<^verbatim>\<open>parsed?.name || config.default || state.current?.name\<close>: the state is read only
  when the first two are falsy.
\<close>

definition rawName :: "agent_spec option \<Rightarrow> config \<Rightarrow> json \<Rightarrow> error + jsval" where
  "rawName parsed cfg state =
     (if truthy (parsed_name parsed) then Inr (parsed_name parsed)
      else if truthy (Some (default_name cfg)) then Inr (Some (default_name cfg))
      else if state = JNull then Inl TypeError
      else Inr (get_opt (get state (js ''current'')) (js ''name'')))"

definition resolveTarget :: "jsval \<Rightarrow> config \<Rightarrow> json \<Rightarrow> overrides \<Rightarrow> error + json target" where
  "resolveTarget agentArg cfg state ov =
     (case parseAgentSpec agentArg of
        Inl e \<Rightarrow> Inl e
      | Inr parsed \<Rightarrow>
     (case rawName parsed cfg state of
        Inl e \<Rightarrow> Inl e
      | Inr raw \<Rightarrow>
     (case normalizeAgentName raw of
        Inl e \<Rightarrow> Inl e
      | Inr nm \<Rightarrow>
     if nm = [] then Inl NoAgentSpecified
     else
     (case assertSupportedAgent nm of
        Inl e \<Rightarrow> Inl e
      | Inr u \<Rightarrow>
     (let fromConfig = agents cfg nm in
      case currentForAgent state nm of
        Inl e \<Rightarrow> Inl e
      | Inr cur \<Rightarrow>
     (case resolvePackageName nm (packageOverride ov)
             (map_option cfg_package fromConfig) (get_opt (Some cur) (js ''package'')) of
        Inl e \<Rightarrow> Inl e
      | Inr packageName \<Rightarrow>
          Inr \<lparr>name = nm,
               package = packageName,
               version =
                 or_else (jor (parsed_version parsed)
                           (jor (map_option cfg_version fromConfig)
                                (get_opt (Some cur) (js ''version''))))
                         (JStr (js ''latest'')),
               args =
                 or_else (jor (argsOverride ov)
                           (jor (map_option cfg_args fromConfig)
                                (get_opt (Some cur) (js ''args''))))
                         (JStr [])\<rparr>))))))"

section \<open>The file system\<close>

text \<open>
  A path is the list of its segments below the root. The file system maps a path to what
  is there: a directory, or a file. Of a file's text only what \<^verbatim>\<open>JSON.parse\<close>
  makes of it matters: the value it denotes, or a syntax error. Permissions and links are
  not modelled. The trace records the calls that remove a tree and that spawn a process.
  The world also holds what the process reads of its environment: the directory that the
  variable \<^verbatim>\<open>AVM_HOME\<close> names, \<open>None\<close> when it is not set or empty, and the
  home directory \<^verbatim>\<open>os.homedir()\<close>.
\<close>

type_synonym path = "jstring list"

datatype contents = JsonText json | OtherText

datatype node = Dir | File contents

datatype event = Rm path | Spawn jstring "jstring list"

record world =
  env_AVM_HOME :: "path option"
  homedir :: path
  fs :: "path \<rightharpoonup> node"
  trace :: "event list"

fun is_file :: "node option \<Rightarrow> bool" where
  "is_file (Some (File c)) = True"
| "is_file x = False"

text \<open>The proper ancestors of a path, and whether one of them is a file.\<close>

definition ancestors :: "path \<Rightarrow> path list" where
  "ancestors p = butlast (prefixes p)"

definition blocked :: "world \<Rightarrow> path \<Rightarrow> bool" where
  "blocked w p = list_ex (\<lambda>q. is_file (fs w q)) (ancestors p)"

text \<open>\<^verbatim>\<open>path.dirname\<close>; the root is its own parent.\<close>

definition dirname :: "path \<Rightarrow> path" where
  "dirname p = butlast p"

text \<open>
  \<^verbatim>\<open>path.join(base, s)\<close> for an absolute \<open>base\<close>: the segments of \<open>s\<close> are
  appended, empty segments and \<^verbatim>\<open>.\<close> dropped, \<^verbatim>\<open>..\<close> going one up.
\<close>

definition join_segment :: "path \<Rightarrow> jstring \<Rightarrow> path" where
  "join_segment acc seg =
     (if seg = [] \<or> seg = js ''.'' then acc
      else if seg = js ''..'' then butlast acc
      else acc @ [seg])"

definition path_join :: "path \<Rightarrow> jstring \<Rightarrow> path" where
  "path_join base s = foldl join_segment base (split_on 0x2F s)"

text \<open>The text of a path, as it appears among the arguments of a command.\<close>

definition path_string :: "path \<Rightarrow> jstring" where
  "path_string p = (if p = [] then js ''/'' else concat (map (\<lambda>seg. 0x2F # seg) p))"

text \<open>\<^verbatim>\<open>fs.mkdir(p, {recursive: true})\<close>.\<close>

definition mkdir :: "path \<Rightarrow> world \<Rightarrow> (error + unit) \<times> world" where
  "mkdir p w =
     (if blocked w p then (Inl ENOTDIR, w)
      else if is_file (fs w p) then (Inl EEXIST, w)
      else (Inr (), w\<lparr>fs := (\<lambda>q. if prefix q p then Some Dir else fs w q)\<rparr>))"

text \<open>\<^verbatim>\<open>fs.access\<close> inside \<^verbatim>\<open>pathExists\<close>: any failure is \<^verbatim>\<open>false\<close>.\<close>

definition pathExists :: "path \<Rightarrow> world \<Rightarrow> bool" where
  "pathExists targetPath w = (\<not> blocked w targetPath \<and> fs w targetPath \<noteq> None)"

definition readFile :: "path \<Rightarrow> world \<Rightarrow> error + contents" where
  "readFile p w =
     (if blocked w p then Inl ENOTDIR
      else case fs w p of
        None \<Rightarrow> Inl ENOENT
      | Some Dir \<Rightarrow> Inl EISDIR
      | Some (File c) \<Rightarrow> Inr c)"

definition JSON_parse :: "contents \<Rightarrow> error + json" where
  "JSON_parse raw = (case raw of JsonText v \<Rightarrow> Inr v | OtherText \<Rightarrow> Inl SyntaxError)"

definition writeFile :: "path \<Rightarrow> contents \<Rightarrow> world \<Rightarrow> (error + unit) \<times> world" where
  "writeFile p c w =
     (if blocked w p then (Inl ENOTDIR, w)
      else if fs w (dirname p) \<noteq> Some Dir then (Inl ENOENT, w)
      else if fs w p = Some Dir then (Inl EISDIR, w)
      else (Inr (), w\<lparr>fs := (fs w)(p \<mapsto> File c)\<rparr>))"


section \<open>State\<close>

text \<open>\<^verbatim>\<open>process.env.AVM_HOME || path.join(os.homedir(), '.avm')\<close>.\<close>

definition AVM_HOME :: "world \<Rightarrow> path" where
  "AVM_HOME w =
     (case env_AVM_HOME w of
        Some h \<Rightarrow> h
      | None \<Rightarrow> path_join (homedir w) (js ''.avm''))"

definition AGENTS_DIR :: "world \<Rightarrow> path" where
  "AGENTS_DIR w = path_join (AVM_HOME w) (js ''agents'')"

definition STATE_FILE :: "world \<Rightarrow> path" where
  "STATE_FILE w = path_join (AVM_HOME w) (js ''state.json'')"

definition readJson :: "path \<Rightarrow> json \<Rightarrow> world \<Rightarrow> error + json" where
  "readJson file fallback w =
     (case readFile file w of
        Inl err \<Rightarrow> if err = ENOENT then Inr fallback else Inl err
      | Inr raw \<Rightarrow>
          (case JSON_parse raw of
             Inl err \<Rightarrow> if err = ENOENT then Inr fallback else Inl err
           | Inr v \<Rightarrow> Inr v))"

definition writeJson :: "path \<Rightarrow> json \<Rightarrow> world \<Rightarrow> (error + unit) \<times> world" where
  "writeJson file data w =
     (case mkdir (dirname file) w of
        (Inl e, w') \<Rightarrow> (Inl e, w')
      | (Inr u, w') \<Rightarrow> writeFile file (JsonText data) w')"

definition readState :: "world \<Rightarrow> error + json" where
  "readState w =
     (case readJson (STATE_FILE w) (JObj []) w of
        Inl e \<Rightarrow> Inl e
      | Inr v \<Rightarrow> Inr (or_else (Some v) (JObj [])))"

text \<open>\<^verbatim>\<open>{ ...previous, ...patch, updatedAt: new Date().toISOString() }\<close>; the time
  is the argument \<open>now\<close>.\<close>

definition writeState :: "json \<Rightarrow> jstring \<Rightarrow> world \<Rightarrow> (error + unit) \<times> world" where
  "writeState patch now w =
     (case readJson (STATE_FILE w) (JObj []) w of
        Inl e \<Rightarrow> (Inl e, w)
      | Inr v \<Rightarrow>
          (let previous = or_else (Some v) (JObj []);
               next = JObj (assign (assign (entries previous) (entries patch))
                                   [(js ''updatedAt'', JStr now)])
           in writeJson (STATE_FILE w) next w))"

section \<open>Installations\<close>


text \<open>\<^verbatim>\<open>name.replace(/[\\/]/g, '__')\<close>.\<close>

definition sanitizeName :: "jstring \<Rightarrow> jstring" where
  "sanitizeName nm =
     concat (map (\<lambda>c. if c = 0x2F \<or> c = 0x5C then js ''__'' else [c]) nm)"

definition agentDir :: "jstring \<Rightarrow> world \<Rightarrow> path" where
  "agentDir nm w = path_join (AGENTS_DIR w) (sanitizeName nm)"

definition installDir :: "jstring \<Rightarrow> jstring \<Rightarrow> world \<Rightarrow> path" where
  "installDir nm ver w = path_join (agentDir nm w) ver"














text \<open>The arguments of the installer for a target.\<close>

definition npm_args :: "jstring target \<Rightarrow> jstring option \<Rightarrow> world \<Rightarrow> jstring list" where
  "npm_args t registry w =
     [js ''install'', js ''--prefix'', path_string (installDir (name t) (version t) w),
      js ''--no-package-lock'', js ''--no-progress'', js ''--no-fund'',
      package t @ js ''@'' @ version t]
     @ (case registry of
          None \<Rightarrow> []
        | Some r \<Rightarrow> if r = [] then [] else [js ''--registry'', r])"



section \<open>The project configuration\<close>

text \<open>\<^verbatim>\<open>findConfigFile\<close> walks from the start directory up to the root.\<close>

function findConfigFile :: "path \<Rightarrow> world \<Rightarrow> path option" where
  "findConfigFile dir w =
     (let candidate = path_join dir (js ''avm.config.json'') in
      if pathExists candidate w then Some candidate
      else if dirname dir = dir then None
      else findConfigFile (dirname dir) w)"
  by pat_completeness auto
termination
proof (relation "measure (\<lambda>(dir, w). length dir)")
  fix dir :: path and w :: world and candidate :: path
  assume "dirname dir \<noteq> dir"
  then have "dir \<noteq> []" by (auto simp: dirname_def)
  then show "((dirname dir, w), (dir, w)) \<in> measure (\<lambda>(dir, w). length dir)"
    by (simp add: dirname_def)
qed simp

text \<open>The loop over \<^verbatim>\<open>Object.entries(parsed)\<close>, filling \<^verbatim>\<open>config.agents\<close>.\<close>

fun load_agents ::
  "(jstring \<times> json) list \<Rightarrow> (jstring \<rightharpoonup> agent_config) \<Rightarrow> error + (jstring \<rightharpoonup> agent_config)" where
  "load_agents [] ag = Inr ag"
| "load_agents ((nm, v) # rest) ag =
     (if nm = js ''default'' then load_agents rest ag
      else if truthy (Some v) \<and> is_object v then
        (case normalizeAgentName (Some (JStr nm)) of
           Inl e \<Rightarrow> Inl e
         | Inr normalizedName \<Rightarrow>
             if normalizedName = [] then load_agents rest ag
             else (case assertSupportedAgent normalizedName of
                     Inl e \<Rightarrow> Inl e
                   | Inr u \<Rightarrow>
                       load_agents rest
                         (ag(normalizedName \<mapsto>
                            \<lparr>cfg_package = or_else (jor (get v (js ''package'')) (get v (js ''pkg''))) JNull,
                             cfg_version = or_else (get v (js ''version'')) JNull,
                             cfg_args = or_else (get v (js ''args'')) (JStr [])\<rparr>))))
      else load_agents rest ag)"

text \<open>The default name: the \<^verbatim>\<open>if\<close> on \<^verbatim>\<open>parsed.default\<close>; \<open>None\<close> leaves
  \<^verbatim>\<open>config.default\<close> as it is.\<close>

definition load_default :: "json \<Rightarrow> error + jstring option" where
  "load_default parsed =
     (if parsed = JNull then Inl TypeError
      else case get parsed (js ''default'') of
        None \<Rightarrow> Inr None
      | Some d \<Rightarrow>
          if truthy (Some d) \<and> is_object d \<and> truthy (get d (js ''name'')) then
            (case normalizeAgentName (get d (js ''name'')) of
               Inl e \<Rightarrow> Inl e
             | Inr normalizedDefault \<Rightarrow>
                 (case assertSupportedAgent normalizedDefault of
                    Inl e \<Rightarrow> Inl e
                  | Inr u \<Rightarrow> Inr (Some normalizedDefault)))
          else Inr None)"

definition loadProjectConfig :: "path \<Rightarrow> world \<Rightarrow> error + config" where
  "loadProjectConfig cwd w =
     (case findConfigFile cwd w of
        None \<Rightarrow> Inr \<lparr>default_name = JNull, agents = Map.empty, path = None\<rparr>
      | Some configPath \<Rightarrow>
          (case readFile configPath w of
             Inl err \<Rightarrow> Inl (ConfigParseError configPath err)
           | Inr raw \<Rightarrow>
          (case JSON_parse raw of
             Inl err \<Rightarrow> Inl (ConfigParseError configPath err)
           | Inr parsed \<Rightarrow>
          (case load_default parsed of
             Inl err \<Rightarrow> Inl (ConfigParseError configPath err)
           | Inr d \<Rightarrow>
          (case load_agents (entries parsed) Map.empty of
             Inl err \<Rightarrow> Inl (ConfigParseError configPath err)
           | Inr ag \<Rightarrow>
               Inr \<lparr>default_name = (case d of None \<Rightarrow> JNull | Some n \<Rightarrow> JStr n),
                    agents = ag,
                    path = Some configPath\<rparr>)))))"

text \<open>
  The chain of sources as the specification words it: the first source that holds a value
  (a truthy one) wins, whatever the later sources hold.
\<close>

fun first_match_wins :: "jsval list \<Rightarrow> jsval" where
  "first_match_wins [] = None"
| "first_match_wins (x # xs) = (if truthy x then x else first_match_wins xs)"

text \<open>What the state holds for a tool: the field of \<^verbatim>\<open>state.current\<close> when its
  name, normalized, is that tool's.\<close>

definition state_for :: "json \<Rightarrow> jstring \<Rightarrow> jstring \<Rightarrow> jsval" where
  "state_for state nm k =
     (case get state (js ''current'') of
        None \<Rightarrow> None
      | Some cur \<Rightarrow>
          if truthy (Some cur) \<and> normalizeAgentName (get cur (js ''name'')) = Inr nm
          then get cur k else None)"

section \<open>Example data\<close>

text \<open>A project configuration with a section for \<^verbatim>\<open>codex\<close>.\<close>

definition example_config :: config where
  "example_config =
     \<lparr>default_name = JNull,
      agents = [js ''codex'' \<mapsto> \<lparr>cfg_package = JStr (js ''@my/codex''), cfg_version = JNull,
                                cfg_args = JStr (js ''resume'')\<rparr>],
      path = None\<rparr>"

text \<open>A state whose current tool is \<^verbatim>\<open>codex\<close>, and a call without overrides.\<close>

definition example_state :: json where
  "example_state =
     JObj [(js ''current'',
            JObj [(js ''name'', JStr (js ''codex'')), (js ''package'', JStr (js ''@old/codex'')),
                  (js ''version'', JStr (js ''0.9'')), (js ''args'', JStr (js ''--fast''))])]"

definition no_overrides :: overrides where
  "no_overrides = \<lparr>packageOverride = None, argsOverride = None\<rparr>"

text \<open>
  A world where the state file and a project configuration file hold text that is no JSON,
  a world with neither file, and the configuration of a project without a file.
\<close>

definition corrupt_world :: world where
  "corrupt_world =
     \<lparr>env_AVM_HOME = None,
      homedir = [js ''home'', js ''user''],
      fs = [[] \<mapsto> Dir, [js ''home''] \<mapsto> Dir, [js ''home'', js ''user''] \<mapsto> Dir,
             [js ''home'', js ''user'', js ''.avm''] \<mapsto> Dir,
             [js ''home'', js ''user'', js ''.avm'', js ''state.json''] \<mapsto> File OtherText,
             [js ''proj''] \<mapsto> Dir,
             [js ''proj'', js ''avm.config.json''] \<mapsto> File OtherText],
      trace = []\<rparr>"

definition fresh_world :: world where
  "fresh_world =
     \<lparr>env_AVM_HOME = None,
      homedir = [js ''home'', js ''user''],
      fs = [[] \<mapsto> Dir, [js ''home''] \<mapsto> Dir, [js ''home'', js ''user''] \<mapsto> Dir, [js ''proj''] \<mapsto> Dir],
      trace = []\<rparr>"

definition empty_config :: config where
  "empty_config = \<lparr>default_name = JNull, agents = Map.empty, path = None\<rparr>"








section \<open>Properties of the string functions\<close>

lemma split_on_nonempty: "split_on c s \<noteq> []"
  by (induction s) (auto split: list.splits)

lemma join_split_on: "join [c] (split_on c s) = s"
proof (induction s)
  case Nil
  show ?case by simp
next
  case (Cons x xs)
  obtain w ws where ws: "split_on c xs = w # ws"
    using split_on_nonempty [of c xs] by (cases "split_on c xs") auto
  show ?case
  proof (cases "x = c")
    case True
    with Cons ws show ?thesis by simp
  next
    case False
    with Cons ws show ?thesis by (cases ws) auto
  qed
qed

lemma split_on_no_sep: "p \<in> set (split_on c s) \<Longrightarrow> c \<notin> set p"
  by (induction s arbitrary: p) (auto split: if_splits list.splits)

lemma trim_front: "dropWhile isWhitespace (trim s) = trim s"
proof -
  define d where "d = dropWhile isWhitespace s"
  define e where "e = dropWhile isWhitespace (rev d)"
  have t: "trim s = rev e" by (simp add: trim_def d_def e_def)
  have "rev d = takeWhile isWhitespace (rev d) @ e" by (simp add: e_def)
  then have "d = rev e @ rev (takeWhile isWhitespace (rev d))"
    by (metis rev_append rev_rev_ident)
  then have "rev e \<noteq> [] \<Longrightarrow> hd (rev e) = hd d \<and> d \<noteq> []"
    by (metis hd_append2 append_is_Nil_conv)
  moreover have "d \<noteq> [] \<Longrightarrow> \<not> isWhitespace (hd d)"
    unfolding d_def by (rule hd_dropWhile)
  ultimately have "rev e = [] \<or> \<not> isWhitespace (hd (rev e))" by metis
  then show ?thesis unfolding t by (simp add: dropWhile_eq_self_iff)
qed

lemma trim_idem: "trim (trim s) = trim s"
proof -
  have "trim (trim s) = rev (dropWhile isWhitespace (rev (trim s)))"
    by (simp add: trim_def [of "trim s"] trim_front)
  also have "\<dots> = trim s" by (simp add: trim_def)
  finally show ?thesis .
qed

lemma set_trim: "set (trim s) \<subseteq> set s"
proof -
  have "set (trim s) \<subseteq> set (dropWhile isWhitespace s)"
    unfolding trim_def by (metis set_rev set_dropWhileD subsetI)
  then show ?thesis by (meson set_dropWhileD subset_iff)
qed

text \<open>What \<^verbatim>\<open>trim\<close> strips is white space, and what it leaves has none at its ends.\<close>

lemma trim_split:
  "\<exists>a b. s = a @ trim s @ b \<and> list_all isWhitespace a \<and> list_all isWhitespace b"
proof -
  define d where "d = dropWhile isWhitespace s"
  have 1: "s = takeWhile isWhitespace s @ d" by (simp add: d_def)
  have "rev (rev d) = rev (takeWhile isWhitespace (rev d) @ dropWhile isWhitespace (rev d))"
    by (simp only: takeWhile_dropWhile_id)
  then have "d = rev (dropWhile isWhitespace (rev d)) @ rev (takeWhile isWhitespace (rev d))"
    by (simp only: rev_rev_ident rev_append)
  then have 2: "d = trim s @ rev (takeWhile isWhitespace (rev d))"
    by (simp only: trim_def d_def)
  have 3: "list_all isWhitespace (takeWhile isWhitespace s)"
    "list_all isWhitespace (rev (takeWhile isWhitespace (rev d)))"
    by (auto simp: list_all_iff dest: set_takeWhileD)
  from 1 2 have "s = takeWhile isWhitespace s @ trim s @ rev (takeWhile isWhitespace (rev d))"
    by simp
  with 3 show ?thesis by blast
qed

lemma trim_last: "trim s \<noteq> [] \<Longrightarrow> \<not> isWhitespace (last (trim s))"
proof -
  assume n: "trim s \<noteq> []"
  let ?e = "dropWhile isWhitespace (rev (dropWhile isWhitespace s))"
  from n have "?e \<noteq> []" by (simp add: trim_def)
  then have "\<not> isWhitespace (hd ?e)" by (rule hd_dropWhile)
  moreover have "last (trim s) = hd ?e" using \<open>?e \<noteq> []\<close> by (simp add: trim_def last_rev)
  ultimately show ?thesis by simp
qed

text \<open>Literals.\<close>

lemma js_eq_iff [simp]: "js a = js b \<longleftrightarrow> a = b"
  by (simp add: js_def inj_map_eq_map inj_on_def)

lemma js_Nil [simp]: "js [] = []" "js s = [] \<longleftrightarrow> s = []" "[] = js s \<longleftrightarrow> s = []"
  by (auto simp: js_def)

text \<open>Lowercasing: nothing but the empty string becomes empty, and on ASCII only the
  letters A to Z change.\<close>

lemma trim_empty [simp]: "trim [] = []"
  by (simp add: trim_def)

lemma toLowerCase_empty [simp]: "toLowerCase [] = []"
  by (simp add: toLowerCase_def)

lemma code_points_Nil: "code_points s = [] \<longleftrightarrow> s = []"
  by (cases s rule: code_points.cases) auto

lemma lower_cp_nonempty: "lower_cp c \<noteq> []"
  by (simp add: lower_cp_def split: option.splits prod.splits)

lemma lower_cps_Nil: "lower_cps p cs = [] \<longleftrightarrow> cs = []"
  by (cases cs) (simp_all add: lower_cp_nonempty)

lemma code_units_nonempty: "code_units c \<noteq> []"
  by (simp add: code_units_def)

lemma toLowerCase_Nil [simp]: "toLowerCase s = [] \<longleftrightarrow> s = []"
proof (cases "lower_cps [] (code_points s)")
  case Nil
  then show ?thesis by (simp add: toLowerCase_def lower_cps_Nil code_points_Nil)
next
  case (Cons c cs)
  then have "s \<noteq> []" by (auto simp: lower_cps_Nil code_points_Nil)
  with Cons show ?thesis by (simp add: toLowerCase_def code_units_nonempty)
qed

lemma code_points_bmp: "\<forall>c \<in> set s. c < 0xD800 \<Longrightarrow> code_points s = s"
  by (induction s rule: code_points.induct) auto

lemma lower_cps_ascii:
  "\<forall>c \<in> set s. c < 0x80 \<Longrightarrow>
     lower_cps p s = map (\<lambda>c. if 0x41 \<le> c \<and> c \<le> 0x5A then c + 0x20 else c) s"
  by (induction s arbitrary: p) (auto simp: lower_cp_def)

lemma concat_code_units: "\<forall>c \<in> set cs. c < 0x10000 \<Longrightarrow> concat (map code_units cs) = cs"
  by (induction cs) (auto simp: code_units_def)

lemma toLowerCase_ascii:
  assumes "\<forall>c \<in> set s. c < 0x80"
  shows "toLowerCase s = map (\<lambda>c. if 0x41 \<le> c \<and> c \<le> 0x5A then c + 0x20 else c) s"
proof -
  from assms have "code_points s = s" by (intro code_points_bmp) auto
  moreover have "concat (map code_units (map (\<lambda>c. if 0x41 \<le> c \<and> c \<le> 0x5A then c + 0x20 else c) s))
                   = map (\<lambda>c. if 0x41 \<le> c \<and> c \<le> 0x5A then c + 0x20 else c) s"
    using assms by (intro concat_code_units) auto
  ultimately show ?thesis by (simp add: toLowerCase_def lower_cps_ascii [OF assms])
qed

lemma lastIndexOf_ge: "-1 \<le> lastIndexOf c s"
  by (induction s) (auto simp: Let_def)

lemma lastIndexOf_neg: "lastIndexOf c s < 0 \<longleftrightarrow> c \<notin> set s"
  by (induction s) (auto simp: Let_def)

lemma lastIndexOf_lt: "lastIndexOf c s < int (length s)"
  by (induction s) (auto simp: Let_def)

lemma lastIndexOf_split:
  "0 \<le> lastIndexOf c s \<Longrightarrow>
     s = take (nat (lastIndexOf c s)) s @ c # drop (nat (lastIndexOf c s + 1)) s
     \<and> c \<notin> set (drop (nat (lastIndexOf c s + 1)) s)"
proof (induction s)
  case Nil
  then show ?case by simp
next
  case (Cons x xs)
  show ?case
  proof (cases "0 \<le> lastIndexOf c xs")
    case True
    with Cons.IH have ih: "xs = take (nat (lastIndexOf c xs)) xs @ c # drop (nat (lastIndexOf c xs + 1)) xs"
      "c \<notin> set (drop (nat (lastIndexOf c xs + 1)) xs)" by auto
    from True have i: "lastIndexOf c (x # xs) = lastIndexOf c xs + 1" by (simp add: Let_def)
    have n: "nat (lastIndexOf c xs + 1) = Suc (nat (lastIndexOf c xs))"
      "nat (lastIndexOf c xs + 1 + 1) = Suc (nat (lastIndexOf c xs + 1))"
      using True by auto
    show ?thesis unfolding i n using ih n by simp
  next
    case False
    then have "c \<notin> set xs" using lastIndexOf_neg [of c xs] by simp
    with False Cons.prems show ?thesis by (auto simp: Let_def split: if_splits)
  qed
qed

lemma trim_nonempty_hd:
  assumes "xs \<noteq> []" "\<not> isWhitespace (hd xs)"
  shows "trim xs \<noteq> []"
proof -
  have d: "dropWhile isWhitespace xs = xs" using assms by (cases xs) auto
  have "hd xs \<in> set (rev xs)" using assms by simp
  then have "dropWhile isWhitespace (rev xs) \<noteq> []"
    using assms(2) by (auto simp: dropWhile_eq_Nil_conv)
  then show ?thesis by (simp add: trim_def d)
qed

lemma trim_hd: "trim s \<noteq> [] \<Longrightarrow> \<not> isWhitespace (hd (trim s))"
  using trim_front [of s] by (metis hd_dropWhile)

lemma name_part_nonempty:
  assumes "0 < i" "trim s \<noteq> []"
  shows "toLowerCase (trim (take (nat i) (trim s))) \<noteq> []"
proof -
  from assms have "take (nat i) (trim s) \<noteq> []" by auto
  moreover have "hd (take (nat i) (trim s)) = hd (trim s)" using assms by (cases "trim s") (auto simp: take_Cons')
  ultimately show ?thesis using trim_hd [OF assms(2)] by (simp add: trim_nonempty_hd)
qed

section \<open>Tokenizing the default arguments\<close>

lemma parseArgsString_string:
  "parseArgsString (Some (JStr s)) =
     filter (\<lambda>part. part \<noteq> []) (map trim (split_on 0x20 s))"
  by (simp add: parseArgsString_def)

text \<open>
  C8. For every args string \<open>s\<close>, \<^verbatim>\<open>parseArgsString\<close> splits \<open>s\<close> on single
  spaces, trims each piece and drops the empty ones. Splitting is exact: joining the pieces
  with single spaces gives \<open>s\<close> back and no piece holds a space. Trimming a piece
  strips white space from its two ends and nothing else, and what is left neither starts
  nor ends with white space; white space is the code units that \<^verbatim>\<open>trim\<close> of
  ECMAScript strips. So every token is non-empty, holds no space and neither starts nor
  ends with white space. The string \<^verbatim>\<open>"resume --flag  extra"\<close> gives the three
  tokens \<^verbatim>\<open>resume\<close>, \<^verbatim>\<open>--flag\<close>, \<^verbatim>\<open>extra\<close>; a tab before
  \<^verbatim>\<open>a\<close>, a no-break space between two spaces and a line feed after
  \<^verbatim>\<open>b\<close> leave the tokens \<^verbatim>\<open>a\<close> and \<^verbatim>\<open>b\<close>;
  \<^verbatim>\<open>undefined\<close>, \<^verbatim>\<open>null\<close> and the empty string give no token.
\<close>

theorem parseArgsString_tokenizes:
  "parseArgsString (Some (JStr s)) =
     filter (\<lambda>part. part \<noteq> []) (map trim (split_on 0x20 s))
   \<and> join [0x20] (split_on 0x20 s) = s
   \<and> (\<forall>p \<in> set (split_on 0x20 s). 0x20 \<notin> set p)
   \<and> (\<forall>p. \<exists>a b. p = a @ trim p @ b \<and> list_all isWhitespace a \<and> list_all isWhitespace b
            \<and> (trim p \<noteq> [] \<longrightarrow>
                  \<not> isWhitespace (hd (trim p)) \<and> \<not> isWhitespace (last (trim p))))
   \<and> (\<forall>c. isWhitespace c \<longleftrightarrow>
            c \<in> {0x09, 0x0A, 0x0B, 0x0C, 0x0D, 0x20, 0xA0, 0x1680, 0x2028, 0x2029, 0x202F,
                 0x205F, 0x3000, 0xFEFF}
            \<or> (0x2000 \<le> c \<and> c \<le> 0x200A))
   \<and> (\<forall>t \<in> set (parseArgsString (Some (JStr s))).
         t \<noteq> [] \<and> 0x20 \<notin> set t \<and> \<not> isWhitespace (hd t) \<and> \<not> isWhitespace (last t))
   \<and> parseArgsString (Some (JStr (js ''resume --flag  extra'')))
       = [js ''resume'', js ''--flag'', js ''extra'']
   \<and> parseArgsString (Some (JStr ([0x09] @ js ''a'' @ [0x20, 0xA0, 0x20] @ js ''b'' @ [0x0A])))
       = [js ''a'', js ''b'']
   \<and> parseArgsString None = []
   \<and> parseArgsString (Some JNull) = []
   \<and> parseArgsString (Some (JStr [])) = []"
proof (intro conjI)
  show "parseArgsString (Some (JStr s)) =
     filter (\<lambda>part. part \<noteq> []) (map trim (split_on 0x20 s))"
    by (rule parseArgsString_string)
  show "join [0x20] (split_on 0x20 s) = s" by (rule join_split_on)
  show "\<forall>p \<in> set (split_on 0x20 s). 0x20 \<notin> set p"
    using split_on_no_sep by blast
  show "\<forall>p. \<exists>a b. p = a @ trim p @ b \<and> list_all isWhitespace a \<and> list_all isWhitespace b
            \<and> (trim p \<noteq> [] \<longrightarrow>
                  \<not> isWhitespace (hd (trim p)) \<and> \<not> isWhitespace (last (trim p)))"
  proof
    fix p
    from trim_split [of p] obtain a b where
      "p = a @ trim p @ b" "list_all isWhitespace a" "list_all isWhitespace b" by blast
    moreover have "trim p \<noteq> [] \<longrightarrow>
                  \<not> isWhitespace (hd (trim p)) \<and> \<not> isWhitespace (last (trim p))"
      using trim_hd [of p] trim_last [of p] by blast
    ultimately show "\<exists>a b. p = a @ trim p @ b \<and> list_all isWhitespace a \<and> list_all isWhitespace b
            \<and> (trim p \<noteq> [] \<longrightarrow>
                  \<not> isWhitespace (hd (trim p)) \<and> \<not> isWhitespace (last (trim p)))"
      by blast
  qed
  show "\<forall>c. isWhitespace c \<longleftrightarrow>
            c \<in> {0x09, 0x0A, 0x0B, 0x0C, 0x0D, 0x20, 0xA0, 0x1680, 0x2028, 0x2029, 0x202F,
                 0x205F, 0x3000, 0xFEFF}
            \<or> (0x2000 \<le> c \<and> c \<le> 0x200A)"
    by (simp add: isWhitespace_def)
  show "\<forall>t \<in> set (parseArgsString (Some (JStr s))).
         t \<noteq> [] \<and> 0x20 \<notin> set t \<and> \<not> isWhitespace (hd t) \<and> \<not> isWhitespace (last t)"
  proof
    fix t assume "t \<in> set (parseArgsString (Some (JStr s)))"
    then obtain p where p: "p \<in> set (split_on 0x20 s)" and t: "t = trim p" "t \<noteq> []"
      unfolding parseArgsString_string by auto
    from p have "0x20 \<notin> set p" by (rule split_on_no_sep)
    with set_trim [of p] have "0x20 \<notin> set t" unfolding t(1) by blast
    moreover from t have "\<not> isWhitespace (hd t)" "\<not> isWhitespace (last t)"
      using trim_hd [of p] trim_last [of p] by simp_all
    ultimately show "t \<noteq> [] \<and> 0x20 \<notin> set t \<and> \<not> isWhitespace (hd t) \<and> \<not> isWhitespace (last t)"
      using t(2) by simp
  qed
  show "parseArgsString (Some (JStr (js ''resume --flag  extra'')))
       = [js ''resume'', js ''--flag'', js ''extra'']"
    by code_simp
  show "parseArgsString (Some (JStr ([0x09] @ js ''a'' @ [0x20, 0xA0, 0x20] @ js ''b'' @ [0x0A])))
       = [js ''a'', js ''b'']"
    by code_simp
  show "parseArgsString None = []" by (simp add: parseArgsString_def)
  show "parseArgsString (Some JNull) = []" by (simp add: parseArgsString_def)
  show "parseArgsString (Some (JStr [])) = []" by (simp add: parseArgsString_def)
qed

theorem parseArgsString_tokenizes_witness:
  "js ''--flag'' \<in> set (parseArgsString (Some (JStr (js ''resume --flag  extra''))))
   \<and> 0x20 \<notin> set (js ''--flag'')
   \<and> \<not> isWhitespace (hd (js ''--flag'')) \<and> \<not> isWhitespace (last (js ''--flag''))"
proof -
  have b: "js ''--flag'' \<in> set (parseArgsString (Some (JStr (js ''resume --flag  extra''))))"
    by code_simp
  have "\<forall>t \<in> set (parseArgsString (Some (JStr (js ''resume --flag  extra'')))).
         t \<noteq> [] \<and> 0x20 \<notin> set t \<and> \<not> isWhitespace (hd t) \<and> \<not> isWhitespace (last t)"
    using parseArgsString_tokenizes [of "js ''resume --flag  extra''"] by (elim conjE)
  from bspec [OF this b]
  have "0x20 \<notin> set (js ''--flag'')
         \<and> \<not> isWhitespace (hd (js ''--flag'')) \<and> \<not> isWhitespace (last (js ''--flag''))"
    by (rule conjunct2)
  with b show ?thesis by (rule conjI)
qed

section \<open>Resolution\<close>

lemma resolveTarget_Inr:
  assumes "resolveTarget a c s ov = Inr t"
  obtains parsed raw cur where
    "parseAgentSpec a = Inr parsed"
    "rawName parsed c s = Inr raw"
    "normalizeAgentName raw = Inr (name t)"
    "name t \<noteq> []"
    "name t \<in> set SUPPORTED_AGENTS"
    "currentForAgent s (name t) = Inr cur"
    "resolvePackageName (name t) (packageOverride ov)
       (map_option cfg_package (agents c (name t))) (get_opt (Some cur) (js ''package'')) = Inr (package t)"
    "version t = or_else (jor (parsed_version parsed)
                   (jor (map_option cfg_version (agents c (name t)))
                        (get_opt (Some cur) (js ''version'')))) (JStr (js ''latest''))"
    "args t = or_else (jor (argsOverride ov)
                   (jor (map_option cfg_args (agents c (name t)))
                        (get_opt (Some cur) (js ''args'')))) (JStr [])"
  using assms
  unfolding resolveTarget_def assertSupportedAgent_def Let_def
  by (auto split: sum.splits if_splits)

lemma if_truthy_empty: "if_truthy (Some (JStr [])) = None" "if_truthy None = None"
  by (simp_all add: if_truthy_def)

lemma jor_empty: "jor (Some (JStr [])) y = y" "jor None y = y"
  by (simp_all add: jor_def)

lemma resolveTarget_empty_package:
  "resolveTarget a c s \<lparr>packageOverride = Some (JStr []), argsOverride = ao\<rparr>
     = resolveTarget a c s \<lparr>packageOverride = None, argsOverride = ao\<rparr>"
  by (simp add: resolveTarget_def resolvePackageName_def if_truthy_empty Let_def cong: sum.case_cong if_cong)

lemma resolveTarget_empty_args:
  "resolveTarget a c s \<lparr>packageOverride = po, argsOverride = Some (JStr [])\<rparr>
     = resolveTarget a c s \<lparr>packageOverride = po, argsOverride = None\<rparr>"
  by (simp add: resolveTarget_def jor_empty Let_def cong: sum.case_cong if_cong)

lemma currentForAgent_state_for:
  "currentForAgent s nm = Inr cur \<Longrightarrow> get_opt (Some cur) k = state_for s nm k"
  unfolding currentForAgent_def state_for_def get_opt_def
  by (cases "get s (js ''current'')")
     (auto split: if_splits sum.splits json.splits)

lemma or_else_chain:
  "or_else (jor x (jor y z)) d = or_else (first_match_wins [x, y, z]) d"
  by (cases z) (auto simp: jor_def or_else_def split: option.splits)

lemma default_package_truthy:
  "map_of DEFAULT_PACKAGES nm = Some b \<Longrightarrow> truthy (Some (JStr b))"
  by (auto simp: DEFAULT_PACKAGES_def split: if_splits)

lemma resolvePackageName_chain:
  "resolvePackageName nm po cp sp = Inr p \<Longrightarrow>
     Some p = first_match_wins [po, cp, sp, map_option JStr (map_of DEFAULT_PACKAGES nm)]"
  unfolding resolvePackageName_def if_truthy_def
  by (auto split: option.splits if_splits dest: default_package_truthy)

lemma first_match_wins_regardless:
  "list_all (\<lambda>y. \<not> truthy y) pre \<Longrightarrow> truthy x \<Longrightarrow> first_match_wins (pre @ x # post) = x"
  by (induction pre) auto

lemma or_else_latest:
  "Some (or_else (jor x (jor y z)) (JStr (js ''latest'')))
     = first_match_wins [x, y, z, Some (JStr (js ''latest''))]"
  by (cases x; cases y; cases z) (auto simp: jor_def or_else_def)

lemma rawName_chain:
  assumes "rawName parsed c s = Inr raw" "truthy raw"
  shows "first_match_wins [parsed_name parsed, Some (default_name c),
                           get_opt (get s (js ''current'')) (js ''name'')] = raw"
  using assms by (auto simp: rawName_def split: if_splits)

lemma normalizeAgentName_nonempty:
  "normalizeAgentName raw = Inr n \<Longrightarrow> n \<noteq> [] \<Longrightarrow> truthy raw"
  by (auto simp: normalizeAgentName_def split: if_splits)

lemma state_for_other:
  "normalizeAgentName (get_opt (get s (js ''current'')) (js ''name'')) \<noteq> Inr nm \<Longrightarrow> state_for s nm k = None"
  unfolding state_for_def get_opt_def
  by (cases "get s (js ''current'')") (auto split: json.splits)

lemma currentForAgent_other:
  assumes "s \<noteq> JNull" "normalizeAgentName (get_opt (get s (js ''current'')) (js ''name'')) = Inr n'" "n' \<noteq> nm"
  shows "currentForAgent s nm = Inr JNull"
  using assms unfolding currentForAgent_def get_opt_def
  by (cases "get s (js ''current'')") (auto split: json.splits)

lemma rawName_not_from_state:
  assumes "rawName parsed c s = Inr raw" "normalizeAgentName raw = Inr nm" "nm \<noteq> []"
    and "normalizeAgentName (get_opt (get s (js ''current'')) (js ''name'')) \<noteq> Inr nm"
    and "s' \<noteq> JNull"
  shows "rawName parsed c s' = Inr raw"
  using assms by (auto simp: rawName_def split: if_splits)

lemma resolveTarget_InrI:
  assumes "parseAgentSpec a = Inr parsed"
    "rawName parsed c s = Inr raw"
    "normalizeAgentName raw = Inr nm"
    "nm \<noteq> []"
    "nm \<in> set SUPPORTED_AGENTS"
    "currentForAgent s nm = Inr cur"
    "resolvePackageName nm (packageOverride ov)
       (map_option cfg_package (agents c nm)) (get_opt (Some cur) (js ''package'')) = Inr p"
  shows "resolveTarget a c s ov =
     Inr \<lparr>name = nm, package = p,
          version = or_else (jor (parsed_version parsed)
                   (jor (map_option cfg_version (agents c nm))
                        (get_opt (Some cur) (js ''version'')))) (JStr (js ''latest'')),
          args = or_else (jor (argsOverride ov)
                   (jor (map_option cfg_args (agents c nm))
                        (get_opt (Some cur) (js ''args'')))) (JStr [])\<rparr>"
  using assms by (simp add: resolveTarget_def assertSupportedAgent_def Let_def)

lemma other_tool_state_ignored:
  assumes r: "resolveTarget a c s ov = Inr t"
    and other: "normalizeAgentName (get_opt (get s (js ''current'')) (js ''name'')) \<noteq> Inr (name t)"
    and s': "s' \<noteq> JNull" "normalizeAgentName (get_opt (get s' (js ''current'')) (js ''name'')) = Inr n'"
            "n' \<noteq> name t"
  shows "resolveTarget a c s' ov = Inr t"
proof -
  from r obtain parsed raw cur where
    p: "parseAgentSpec a = Inr parsed" and
    raw: "rawName parsed c s = Inr raw" and
    nm: "normalizeAgentName raw = Inr (name t)" "name t \<noteq> []" "name t \<in> set SUPPORTED_AGENTS" and
    cur: "currentForAgent s (name t) = Inr cur" and
    pk: "resolvePackageName (name t) (packageOverride ov)
       (map_option cfg_package (agents c (name t))) (get_opt (Some cur) (js ''package'')) = Inr (package t)" and
    v: "version t = or_else (jor (parsed_version parsed)
                   (jor (map_option cfg_version (agents c (name t)))
                        (get_opt (Some cur) (js ''version'')))) (JStr (js ''latest''))" and
    ar: "args t = or_else (jor (argsOverride ov)
                   (jor (map_option cfg_args (agents c (name t)))
                        (get_opt (Some cur) (js ''args'')))) (JStr [])"
    by (rule resolveTarget_Inr)
  have none: "get_opt (Some cur) k = None" for k
    using currentForAgent_state_for [OF cur] state_for_other [OF other] by simp
  have raw': "rawName parsed c s' = Inr raw"
    using raw nm(1,2) other s'(1) by (rule rawName_not_from_state)
  have cur': "currentForAgent s' (name t) = Inr JNull"
    using s' by (rule currentForAgent_other)
  have null: "get_opt (Some JNull) k = None" for k
    by (simp add: get_opt_def)
  have pk': "resolvePackageName (name t) (packageOverride ov)
       (map_option cfg_package (agents c (name t))) (get_opt (Some JNull) (js ''package'')) = Inr (package t)"
    using pk by (simp add: none null)
  from resolveTarget_InrI [OF p raw' nm cur' pk'] v ar
  show ?thesis by (simp add: none null)
qed

lemma resolveTarget_chains:
  assumes "resolveTarget a c s ov = Inr t"
  obtains parsed where "parseAgentSpec a = Inr parsed"
    "normalizeAgentName
         (first_match_wins [parsed_name parsed, Some (default_name c),
                            get_opt (get s (js ''current'')) (js ''name'')]) = Inr (name t)"
    "Some (package t)
       = first_match_wins [packageOverride ov, map_option cfg_package (agents c (name t)),
                           state_for s (name t) (js ''package''),
                           map_option JStr (map_of DEFAULT_PACKAGES (name t))]"
    "Some (version t)
       = first_match_wins [parsed_version parsed, map_option cfg_version (agents c (name t)),
                           state_for s (name t) (js ''version''), Some (JStr (js ''latest''))]"
    "args t
       = or_else (first_match_wins [argsOverride ov, map_option cfg_args (agents c (name t)),
                                    state_for s (name t) (js ''args'')]) (JStr [])"
proof -
  from assms obtain parsed raw cur where
    p: "parseAgentSpec a = Inr parsed" and
    raw: "rawName parsed c s = Inr raw" and
    nm: "normalizeAgentName raw = Inr (name t)" "name t \<noteq> []" and
    cur: "currentForAgent s (name t) = Inr cur" and
    pk: "resolvePackageName (name t) (packageOverride ov)
       (map_option cfg_package (agents c (name t))) (get_opt (Some cur) (js ''package'')) = Inr (package t)" and
    v: "version t = or_else (jor (parsed_version parsed)
                   (jor (map_option cfg_version (agents c (name t)))
                        (get_opt (Some cur) (js ''version'')))) (JStr (js ''latest''))" and
    ar: "args t = or_else (jor (argsOverride ov)
                   (jor (map_option cfg_args (agents c (name t)))
                        (get_opt (Some cur) (js ''args'')))) (JStr [])"
    by (rule resolveTarget_Inr)
  have st: "get_opt (Some cur) k = state_for s (name t) k" for k
    by (rule currentForAgent_state_for [OF cur])
  have "truthy raw" using nm by (rule normalizeAgentName_nonempty)
  with raw have c1: "normalizeAgentName
         (first_match_wins [parsed_name parsed, Some (default_name c),
                            get_opt (get s (js ''current'')) (js ''name'')]) = Inr (name t)"
    using nm(1) by (simp only: rawName_chain)
  have c2: "Some (package t)
       = first_match_wins [packageOverride ov, map_option cfg_package (agents c (name t)),
                           state_for s (name t) (js ''package''),
                           map_option JStr (map_of DEFAULT_PACKAGES (name t))]"
    using resolvePackageName_chain [OF pk] by (simp only: st)
  have c3: "Some (version t)
       = first_match_wins [parsed_version parsed, map_option cfg_version (agents c (name t)),
                           state_for s (name t) (js ''version''), Some (JStr (js ''latest''))]"
    unfolding v or_else_latest by (simp only: st)
  have c4: "args t
       = or_else (first_match_wins [argsOverride ov, map_option cfg_args (agents c (name t)),
                                    state_for s (name t) (js ''args'')]) (JStr [])"
    unfolding ar or_else_chain by (simp only: st)
  from p c1 c2 c3 c4 show ?thesis by (rule that)
qed

lemma parseAgentSpec_string:
  "parseAgentSpec (Some (JStr spec)) =
     (let trimmed = trim spec; i = lastIndexOf 0x40 trimmed;
          rest = drop (nat (i + 1)) trimmed
      in if trimmed = [] then Inr None
         else if 0 < i then
           Inr (Some \<lparr>spec_name = toLowerCase (trim (take (nat i) trimmed)),
                      spec_version = (if rest = [] then None else Some rest)\<rparr>)
         else Inr (Some \<lparr>spec_name = toLowerCase trimmed, spec_version = None\<rparr>))"
proof (cases "spec = []")
  case True
  then show ?thesis by (simp add: parseAgentSpec_def trim_def)
next
  case False
  then show ?thesis
    using name_part_nonempty [of "lastIndexOf 0x40 (trim spec)" spec]
    by (auto simp: parseAgentSpec_def Let_def trim_idem)
qed

lemma parsed_version_string:
  assumes "parseAgentSpec (Some (JStr spec)) = Inr parsed"
  shows "parsed_version parsed =
     (if 0 < lastIndexOf 0x40 (trim spec)
         \<and> drop (nat (lastIndexOf 0x40 (trim spec) + 1)) (trim spec) \<noteq> []
      then Some (JStr (drop (nat (lastIndexOf 0x40 (trim spec) + 1)) (trim spec)))
      else None)"
  using assms unfolding parseAgentSpec_string Let_def parsed_version_def
  by (auto split: if_splits)

lemma resolvePackageName_supported:
  "nm \<in> set SUPPORTED_AGENTS \<Longrightarrow> \<exists>p. resolvePackageName nm po cp sp = Inr p"
  by (auto simp: resolvePackageName_def SUPPORTED_AGENTS_def DEFAULT_PACKAGES_def
           split: option.splits)

lemma currentForAgent_error: "currentForAgent s nm = Inl e \<Longrightarrow> e = TypeError"
  by (auto simp: currentForAgent_def normalizeAgentName_def
           split: if_splits option.splits sum.splits json.splits)

lemma resolveTarget_by_name:
  assumes "parseAgentSpec a = Inr parsed" "rawName parsed c st = Inr raw"
    "normalizeAgentName raw = Inr nm"
  shows "if nm = [] then resolveTarget a c st ov = Inl NoAgentSpecified
         else if nm \<notin> set SUPPORTED_AGENTS
           then resolveTarget a c st ov = Inl (UnsupportedAgent nm)
         else (\<exists>t. resolveTarget a c st ov = Inr t \<and> name t = nm)
              \<or> resolveTarget a c st ov = Inl TypeError"
proof (cases "nm \<noteq> [] \<and> nm \<in> set SUPPORTED_AGENTS")
  case False
  with assms show ?thesis
    by (auto simp: resolveTarget_def assertSupportedAgent_def)
next
  case True
  show ?thesis
  proof (cases "currentForAgent st nm")
    case (Inl e)
    then have "e = TypeError" by (rule currentForAgent_error)
    with Inl True assms show ?thesis
      by (simp add: resolveTarget_def assertSupportedAgent_def)
  next
    case (Inr cur)
    from True obtain p where
      "resolvePackageName nm (packageOverride ov)
         (map_option cfg_package (agents c nm)) (get_opt (Some cur) (js ''package'')) = Inr p"
      using resolvePackageName_supported by blast
    with resolveTarget_InrI [OF assms _ _ Inr this] True show ?thesis by simp
  qed
qed

lemma resolves_to_supported:
  assumes p: "parseAgentSpec (Some (JStr s)) = Inr (Some \<lparr>spec_name = nm, spec_version = v\<rparr>)"
    and ne: "nm \<noteq> []"
    and n: "normalizeAgentName (Some (JStr nm)) = Inr nm'"
    and s: "nm' \<in> set SUPPORTED_AGENTS"
  shows "\<exists>t. resolveTarget (Some (JStr s)) c (JObj []) ov = Inr t \<and> name t = nm'"
proof -
  have raw: "rawName (Some \<lparr>spec_name = nm, spec_version = v\<rparr>) c (JObj [])
             = Inr (Some (JStr nm))"
    using ne by (simp add: rawName_def parsed_name_def)
  from s have ne': "nm' \<noteq> []" by (auto simp: SUPPORTED_AGENTS_def)
  have cur: "currentForAgent (JObj []) nm' = Inr JNull"
    by (simp add: currentForAgent_def get_def assign_def)
  from resolveTarget_by_name [OF p raw n, of ov] s ne'
  have "(\<exists>t. resolveTarget (Some (JStr s)) c (JObj []) ov = Inr t \<and> name t = nm')
        \<or> resolveTarget (Some (JStr s)) c (JObj []) ov = Inl TypeError"
    by simp
  moreover have "resolveTarget (Some (JStr s)) c (JObj []) ov \<noteq> Inl TypeError"
    using resolvePackageName_supported [OF s, of "packageOverride ov"
            "map_option cfg_package (agents c nm')" "get_opt (Some JNull) (js ''package'')"] ne'
    by (auto simp: resolveTarget_def p raw n cur assertSupportedAgent_def s Let_def)
  ultimately show ?thesis by blast
qed

lemma codex_mixed_case:
  "\<exists>t. resolveTarget (Some (JStr (js '' CoDeX ''))) c (JObj []) ov = Inr t \<and> name t = js ''codex''"
proof -
  have p: "parseAgentSpec (Some (JStr (js '' CoDeX '')))
             = Inr (Some \<lparr>spec_name = js ''codex'', spec_version = None\<rparr>)"
    by code_simp
  have n: "normalizeAgentName (Some (JStr (js ''codex''))) = Inr (js ''codex'')" by code_simp
  have s: "js ''codex'' \<in> set SUPPORTED_AGENTS" by (simp add: SUPPORTED_AGENTS_def)
  from p _ n s show ?thesis by (rule resolves_to_supported) simp
qed

text \<open>A name in capitals between a no-break space and a tab on one side, a line separator
  and a byte order mark on the other.\<close>

lemma claude_unicode_space:
  "\<exists>t. resolveTarget (Some (JStr ([0xA0, 0x09] @ js ''CLAUDE'' @ [0x2028, 0xFEFF]))) c (JObj []) ov
          = Inr t \<and> name t = js ''claude''"
proof -
  have p: "parseAgentSpec (Some (JStr ([0xA0, 0x09] @ js ''CLAUDE'' @ [0x2028, 0xFEFF])))
             = Inr (Some \<lparr>spec_name = js ''claude'', spec_version = None\<rparr>)"
    by code_simp
  have n: "normalizeAgentName (Some (JStr (js ''claude''))) = Inr (js ''claude'')" by code_simp
  have s: "js ''claude'' \<in> set SUPPORTED_AGENTS" by (simp add: SUPPORTED_AGENTS_def)
  from p _ n s show ?thesis by (rule resolves_to_supported) simp
qed

lemma lastIndexOf_absent: "c \<notin> set s \<Longrightarrow> lastIndexOf c s = -1"
  using lastIndexOf_neg [of c s] lastIndexOf_ge [of c s] by simp

lemma normalizeAgentName_string:
  "normalizeAgentName (Some (JStr s)) = Inr (toLowerCase (trim s))"
  by (simp add: normalizeAgentName_def)

lemma unsupported_cliSpec:
  assumes "0x40 \<notin> set s"
    "toLowerCase (trim (toLowerCase (trim s))) \<noteq> []"
    "toLowerCase (trim (toLowerCase (trim s))) \<notin> set SUPPORTED_AGENTS"
  shows "resolveTarget (Some (JStr s)) c st ov
           = Inl (UnsupportedAgent (toLowerCase (trim (toLowerCase (trim s)))))"
proof -
  let ?n = "toLowerCase (trim s)"
  from assms(2) have ne: "?n \<noteq> []" by auto
  from assms(1) have "0x40 \<notin> set (trim s)" using set_trim [of s] by blast
  then have i: "lastIndexOf 0x40 (trim s) = -1" by (rule lastIndexOf_absent)
  have p: "parseAgentSpec (Some (JStr s)) = Inr (Some \<lparr>spec_name = ?n, spec_version = None\<rparr>)"
    using ne by (simp add: parseAgentSpec_string Let_def i)
  have raw: "rawName (Some \<lparr>spec_name = ?n, spec_version = None\<rparr>) c st = Inr (Some (JStr ?n))"
    using ne by (simp add: rawName_def parsed_name_def)
  from resolveTarget_by_name [OF p raw normalizeAgentName_string, of ov] assms(2,3)
  show ?thesis by simp
qed

lemma no_name_available:
  assumes "parseAgentSpec a = Inr None" "\<not> truthy (Some (default_name c))" "st \<noteq> JNull"
    "\<not> truthy (get_opt (get st (js ''current'')) (js ''name''))"
  shows "resolveTarget a c st ov = Inl NoAgentSpecified"
proof -
  have raw: "rawName None c st = Inr (get_opt (get st (js ''current'')) (js ''name''))"
    using assms(2,3) by (simp add: rawName_def parsed_name_def)
  have n: "normalizeAgentName (get_opt (get st (js ''current'')) (js ''name'')) = Inr []"
    using assms(4) by (simp add: normalizeAgentName_def)
  from resolveTarget_by_name [OF assms(1) raw n, of ov] show ?thesis by simp
qed

lemma resolveTarget_name_supported:
  "resolveTarget a c st ov = Inr t \<Longrightarrow> name t \<in> set SUPPORTED_AGENTS"
  by (erule resolveTarget_Inr)

text \<open>
  C10. An override that is the empty string is no override: \<^verbatim>\<open>resolveTarget\<close>
  returns the same with \<^verbatim>\<open>packageOverride = ""\<close> as with none, and the same
  with \<^verbatim>\<open>argsOverride = ""\<close> as with none. The resolved args are then the
  configuration's args for the tool, else the state's args for that tool, else empty; the
  resolved package is the configuration's, else the state's for that tool, else the
  built-in one. So an empty override cannot force empty args over configured ones.
\<close>

theorem empty_override_falls_through:
  "resolveTarget a c s \<lparr>packageOverride = Some (JStr []), argsOverride = ao\<rparr>
     = resolveTarget a c s \<lparr>packageOverride = None, argsOverride = ao\<rparr>
   \<and> resolveTarget a c s \<lparr>packageOverride = po, argsOverride = Some (JStr [])\<rparr>
     = resolveTarget a c s \<lparr>packageOverride = po, argsOverride = None\<rparr>
   \<and> (\<forall>t. resolveTarget a c s \<lparr>packageOverride = po, argsOverride = Some (JStr [])\<rparr> = Inr t \<longrightarrow>
         args t = or_else (first_match_wins [map_option cfg_args (agents c (name t)),
                                             state_for s (name t) (js ''args'')]) (JStr []))
   \<and> (\<forall>t. resolveTarget a c s \<lparr>packageOverride = Some (JStr []), argsOverride = ao\<rparr> = Inr t \<longrightarrow>
         Some (package t) = first_match_wins [map_option cfg_package (agents c (name t)),
                                              state_for s (name t) (js ''package''),
                                              map_option JStr (map_of DEFAULT_PACKAGES (name t))])"
proof (intro conjI allI impI)
  show "resolveTarget a c s \<lparr>packageOverride = Some (JStr []), argsOverride = ao\<rparr>
     = resolveTarget a c s \<lparr>packageOverride = None, argsOverride = ao\<rparr>"
    by (rule resolveTarget_empty_package)
  show "resolveTarget a c s \<lparr>packageOverride = po, argsOverride = Some (JStr [])\<rparr>
     = resolveTarget a c s \<lparr>packageOverride = po, argsOverride = None\<rparr>"
    by (rule resolveTarget_empty_args)
next
  fix t
  assume "resolveTarget a c s \<lparr>packageOverride = po, argsOverride = Some (JStr [])\<rparr> = Inr t"
  then obtain cur where
    cur: "currentForAgent s (name t) = Inr cur" and
    a: "args t = or_else (jor (Some (JStr []))
                   (jor (map_option cfg_args (agents c (name t)))
                        (get_opt (Some cur) (js ''args'')))) (JStr [])"
    by (rule resolveTarget_Inr) simp
  from a show "args t = or_else (first_match_wins [map_option cfg_args (agents c (name t)),
                                             state_for s (name t) (js ''args'')]) (JStr [])"
    by (simp only: or_else_chain currentForAgent_state_for [OF cur])
       (simp add: or_else_def)
next
  fix t
  assume "resolveTarget a c s \<lparr>packageOverride = Some (JStr []), argsOverride = ao\<rparr> = Inr t"
  then obtain cur where
    cur: "currentForAgent s (name t) = Inr cur" and
    p: "resolvePackageName (name t) (Some (JStr []))
          (map_option cfg_package (agents c (name t))) (get_opt (Some cur) (js ''package''))
        = Inr (package t)"
    by (rule resolveTarget_Inr) simp
  from resolvePackageName_chain [OF p]
  show "Some (package t) = first_match_wins [map_option cfg_package (agents c (name t)),
                                              state_for s (name t) (js ''package''),
                                              map_option JStr (map_of DEFAULT_PACKAGES (name t))]"
    by (simp add: currentForAgent_state_for [OF cur])
qed

theorem empty_override_falls_through_witness:
  "resolveTarget (Some (JStr (js ''codex''))) example_config (JObj [])
      \<lparr>packageOverride = None, argsOverride = Some (JStr [])\<rparr>
    = Inr \<lparr>name = js ''codex'', package = JStr (js ''@my/codex''), version = JStr (js ''latest''),
           args = JStr (js ''resume'')\<rparr>
   \<and> JStr (js ''resume'')
       = or_else (first_match_wins [map_option cfg_args (agents example_config (js ''codex'')),
                                    state_for (JObj []) (js ''codex'') (js ''args'')]) (JStr [])"
proof -
  let ?t = "\<lparr>name = js ''codex'', package = JStr (js ''@my/codex''), version = JStr (js ''latest''),
             args = JStr (js ''resume'')\<rparr>"
  have r: "resolveTarget (Some (JStr (js ''codex''))) example_config (JObj [])
      \<lparr>packageOverride = None, argsOverride = Some (JStr [])\<rparr> = Inr ?t"
    by code_simp
  have "\<forall>t. resolveTarget (Some (JStr (js ''codex''))) example_config (JObj [])
             \<lparr>packageOverride = None, argsOverride = Some (JStr [])\<rparr> = Inr t \<longrightarrow>
         args t = or_else (first_match_wins [map_option cfg_args (agents example_config (name t)),
                                             state_for (JObj []) (name t) (js ''args'')]) (JStr [])"
    using empty_override_falls_through
            [of "Some (JStr (js ''codex''))" example_config "JObj []" None None]
    by (elim conjE)
  then have "args ?t = or_else (first_match_wins [map_option cfg_args (agents example_config (name ?t)),
                                             state_for (JObj []) (name ?t) (js ''args'')]) (JStr [])"
    using r by (elim allE impE)
  with r show ?thesis by simp
qed

text \<open>
  C2. When \<^verbatim>\<open>resolveTarget\<close> returns a target, each field is the first value that
  is present (truthy) in its own chain: the name is the normalized first of cliSpec name,
  configuration default, state's current name; the package the first of override,
  configuration package for the tool, state's package for that tool, built-in package; the
  version the first of cliSpec version, configuration version, state's version for that
  tool, \<^verbatim>\<open>latest\<close>; the args the first of override, configuration args, state's
  args for that tool, else empty. In such a chain a present value wins whatever the later
  sources hold. When the state's current name, normalized, is not the resolved name, the
  state supplies nothing, and any other state that records a different tool or none gives
  the same target.
\<close>

theorem resolveTarget_precedence:
  assumes "resolveTarget a c s ov = Inr t"
  shows "\<exists>parsed. parseAgentSpec a = Inr parsed
     \<and> normalizeAgentName
         (first_match_wins [parsed_name parsed, Some (default_name c),
                            get_opt (get s (js ''current'')) (js ''name'')]) = Inr (name t)
     \<and> Some (package t)
       = first_match_wins [packageOverride ov, map_option cfg_package (agents c (name t)),
                           state_for s (name t) (js ''package''),
                           map_option JStr (map_of DEFAULT_PACKAGES (name t))]
     \<and> Some (version t)
       = first_match_wins [parsed_version parsed, map_option cfg_version (agents c (name t)),
                           state_for s (name t) (js ''version''), Some (JStr (js ''latest''))]
     \<and> args t
       = or_else (first_match_wins [argsOverride ov, map_option cfg_args (agents c (name t)),
                                    state_for s (name t) (js ''args'')]) (JStr [])
     \<and> (\<forall>pre x post. list_all (\<lambda>y. \<not> truthy y) pre \<and> truthy x
           \<longrightarrow> first_match_wins (pre @ x # post) = x)
     \<and> (normalizeAgentName (get_opt (get s (js ''current'')) (js ''name'')) \<noteq> Inr (name t)
          \<longrightarrow> (\<forall>k. state_for s (name t) k = None)
            \<and> (\<forall>s' n'. s' \<noteq> JNull
                  \<and> normalizeAgentName (get_opt (get s' (js ''current'')) (js ''name'')) = Inr n'
                  \<and> n' \<noteq> name t
                  \<longrightarrow> resolveTarget a c s' ov = Inr t))"
proof -
  from assms obtain parsed where
    p: "parseAgentSpec a = Inr parsed" and
    c1: "normalizeAgentName
         (first_match_wins [parsed_name parsed, Some (default_name c),
                            get_opt (get s (js ''current'')) (js ''name'')]) = Inr (name t)" and
    c2: "Some (package t)
       = first_match_wins [packageOverride ov, map_option cfg_package (agents c (name t)),
                           state_for s (name t) (js ''package''),
                           map_option JStr (map_of DEFAULT_PACKAGES (name t))]" and
    c3: "Some (version t)
       = first_match_wins [parsed_version parsed, map_option cfg_version (agents c (name t)),
                           state_for s (name t) (js ''version''), Some (JStr (js ''latest''))]" and
    c4: "args t
       = or_else (first_match_wins [argsOverride ov, map_option cfg_args (agents c (name t)),
                                    state_for s (name t) (js ''args'')]) (JStr [])"
    by (rule resolveTarget_chains)
  have c5: "\<forall>pre x post. list_all (\<lambda>y. \<not> truthy y) pre \<and> truthy x
           \<longrightarrow> first_match_wins (pre @ x # post) = x"
    using first_match_wins_regardless by blast
  have c6: "normalizeAgentName (get_opt (get s (js ''current'')) (js ''name'')) \<noteq> Inr (name t)
          \<longrightarrow> (\<forall>k. state_for s (name t) k = None)
            \<and> (\<forall>s' n'. s' \<noteq> JNull
                  \<and> normalizeAgentName (get_opt (get s' (js ''current'')) (js ''name'')) = Inr n'
                  \<and> n' \<noteq> name t
                  \<longrightarrow> resolveTarget a c s' ov = Inr t)"
    using state_for_other other_tool_state_ignored [OF assms] by blast
  from p c1 c2 c3 c4 c5 c6 show ?thesis by blast
qed

theorem resolveTarget_precedence_witness:
  "resolveTarget (Some (JStr (js ''claude@2.0''))) example_config example_state no_overrides
     = Inr \<lparr>name = js ''claude'', package = JStr (js ''@anthropic-ai/claude-code''),
            version = JStr (js ''2.0''), args = JStr []\<rparr>
   \<and> resolveTarget (Some (JStr (js ''claude@2.0''))) example_config (JObj []) no_overrides
     = Inr \<lparr>name = js ''claude'', package = JStr (js ''@anthropic-ai/claude-code''),
            version = JStr (js ''2.0''), args = JStr []\<rparr>"
proof -
  let ?t = "\<lparr>name = js ''claude'', package = JStr (js ''@anthropic-ai/claude-code''),
             version = JStr (js ''2.0''), args = JStr []\<rparr>"
  have r: "resolveTarget (Some (JStr (js ''claude@2.0''))) example_config example_state no_overrides
             = Inr ?t"
    by code_simp
  have other: "normalizeAgentName (get_opt (get example_state (js ''current'')) (js ''name''))
                 \<noteq> Inr (name ?t)"
    by code_simp
  have s': "JObj [] \<noteq> JNull"
    "normalizeAgentName (get_opt (get (JObj []) (js ''current'')) (js ''name'')) = Inr []"
    "[] \<noteq> name ?t"
    by code_simp+
  from resolveTarget_precedence [OF r] obtain parsed where
    "normalizeAgentName (get_opt (get example_state (js ''current'')) (js ''name'')) \<noteq> Inr (name ?t)
          \<longrightarrow> (\<forall>k. state_for example_state (name ?t) k = None)
            \<and> (\<forall>s' n'. s' \<noteq> JNull
                  \<and> normalizeAgentName (get_opt (get s' (js ''current'')) (js ''name'')) = Inr n'
                  \<and> n' \<noteq> name ?t
                  \<longrightarrow> resolveTarget (Some (JStr (js ''claude@2.0''))) example_config s' no_overrides
                        = Inr ?t)"
    by (elim exE conjE)
  with other s' have "resolveTarget (Some (JStr (js ''claude@2.0''))) example_config (JObj []) no_overrides
                        = Inr ?t"
    by blast
  with r show ?thesis by (rule conjI)
qed

text \<open>
  C9, as the code has it. The claim that the version is the text after the last
  \<^verbatim>\<open>@\<close> of the cliSpec, when that \<^verbatim>\<open>@\<close> is after position 0, fails:
  \<^verbatim>\<open>parseAgentSpec\<close> trims the cliSpec first. In \<^verbatim>\<open>"codex@1.0 "\<close> the text
  after the \<^verbatim>\<open>@\<close> is \<^verbatim>\<open>"1.0 "\<close> with its space, and the resolved version
  is \<^verbatim>\<open>"1.0"\<close>. In \<^verbatim>\<open>" @codex"\<close> the \<^verbatim>\<open>@\<close> is at position 1,
  and no version is parsed: the whole \<^verbatim>\<open>@codex\<close> is the name.
\<close>

theorem cliSpec_trimmed_first:
  "0 < lastIndexOf 0x40 (js ''codex@1.0 '')
   \<and> drop (nat (lastIndexOf 0x40 (js ''codex@1.0 '') + 1)) (js ''codex@1.0 '') = js ''1.0 ''
   \<and> resolveTarget (Some (JStr (js ''codex@1.0 ''))) empty_config (JObj []) no_overrides
       = Inr \<lparr>name = js ''codex'', package = JStr (js ''@openai/codex''),
              version = JStr (js ''1.0''), args = JStr []\<rparr>
   \<and> lastIndexOf 0x40 (js '' @codex'') = 1
   \<and> drop (nat (lastIndexOf 0x40 (js '' @codex'') + 1)) (js '' @codex'') = js ''codex''
   \<and> parseAgentSpec (Some (JStr (js '' @codex'')))
       = Inr (Some \<lparr>spec_name = js ''@codex'', spec_version = None\<rparr>)"
proof (intro conjI)
  show "0 < lastIndexOf 0x40 (js ''codex@1.0 '')" by code_simp
  show "drop (nat (lastIndexOf 0x40 (js ''codex@1.0 '') + 1)) (js ''codex@1.0 '') = js ''1.0 ''"
    by code_simp
  show "resolveTarget (Some (JStr (js ''codex@1.0 ''))) empty_config (JObj []) no_overrides
       = Inr \<lparr>name = js ''codex'', package = JStr (js ''@openai/codex''),
              version = JStr (js ''1.0''), args = JStr []\<rparr>"
    by code_simp
  show "lastIndexOf 0x40 (js '' @codex'') = 1" by code_simp
  show "drop (nat (lastIndexOf 0x40 (js '' @codex'') + 1)) (js '' @codex'') = js ''codex''"
    by code_simp
  show "parseAgentSpec (Some (JStr (js '' @codex'')))
       = Inr (Some \<lparr>spec_name = js ''@codex'', spec_version = None\<rparr>)"
    by code_simp
qed

text \<open>
  C9, amended. Let \<open>trimmed\<close> be the cliSpec with the white space stripped from its two
  ends, \<open>i\<close> the index of the last \<^verbatim>\<open>@\<close> of \<open>trimmed\<close>, and \<open>rest\<close> the
  text after that \<^verbatim>\<open>@\<close>, which holds no \<^verbatim>\<open>@\<close>. The parsed version is
  \<open>rest\<close> when \<open>i > 0\<close> and \<open>rest\<close> is not empty, and there is none otherwise;
  so \<^verbatim>\<open>@scope/name\<close>, whose only \<^verbatim>\<open>@\<close> is at position 0, has no version,
  and \<^verbatim>\<open>codex@1.0\<close> followed by a no-break space has the version
  \<^verbatim>\<open>1.0\<close>. The resolved version is the parsed one when there is one; else the
  configuration's version for the tool, else the state's version for that tool, else
  \<^verbatim>\<open>latest\<close>.
\<close>

theorem version_from_cliSpec:
  assumes "trimmed = trim spec"
    and "i = lastIndexOf 0x40 trimmed"
    and "rest = drop (nat (i + 1)) trimmed"
  shows "(\<exists>a b. spec = a @ trimmed @ b \<and> list_all isWhitespace a \<and> list_all isWhitespace b
            \<and> (trimmed \<noteq> [] \<longrightarrow>
                  \<not> isWhitespace (hd trimmed) \<and> \<not> isWhitespace (last trimmed)))
     \<and> (0 \<le> i \<longrightarrow> trimmed = take (nat i) trimmed @ 0x40 # rest \<and> 0x40 \<notin> set rest)
     \<and> (i < 0 \<longrightarrow> 0x40 \<notin> set trimmed)
     \<and> (\<exists>parsed. parseAgentSpec (Some (JStr spec)) = Inr parsed
           \<and> parsed_version parsed = (if 0 < i \<and> rest \<noteq> [] then Some (JStr rest) else None))
     \<and> (\<forall>t. resolveTarget (Some (JStr spec)) c s ov = Inr t \<longrightarrow>
           (if 0 < i \<and> rest \<noteq> [] then version t = JStr rest
            else Some (version t)
                 = first_match_wins [map_option cfg_version (agents c (name t)),
                                     state_for s (name t) (js ''version''),
                                     Some (JStr (js ''latest''))]))
     \<and> parseAgentSpec (Some (JStr (js ''@scope/name'')))
         = Inr (Some \<lparr>spec_name = js ''@scope/name'', spec_version = None\<rparr>)
     \<and> parseAgentSpec (Some (JStr (js ''codex@1.0'' @ [0xA0])))
         = Inr (Some \<lparr>spec_name = js ''codex'', spec_version = Some (js ''1.0'')\<rparr>)"
proof -
  have t: "\<exists>a b. spec = a @ trimmed @ b \<and> list_all isWhitespace a \<and> list_all isWhitespace b
            \<and> (trimmed \<noteq> [] \<longrightarrow>
                  \<not> isWhitespace (hd trimmed) \<and> \<not> isWhitespace (last trimmed))"
    unfolding assms(1) using trim_split [of spec] trim_hd [of spec] trim_last [of spec] by blast
  have a: "0 \<le> i \<longrightarrow> trimmed = take (nat i) trimmed @ 0x40 # rest \<and> 0x40 \<notin> set rest"
    unfolding assms(3) assms(2) using lastIndexOf_split [of "0x40" trimmed] by blast
  have b: "i < 0 \<longrightarrow> 0x40 \<notin> set trimmed"
    unfolding assms(2) by (simp add: lastIndexOf_neg)
  have "\<exists>parsed. parseAgentSpec (Some (JStr spec)) = Inr parsed"
    unfolding parseAgentSpec_string Let_def by simp
  then obtain parsed where p: "parseAgentSpec (Some (JStr spec)) = Inr parsed" ..
  have pv: "parsed_version parsed = (if 0 < i \<and> rest \<noteq> [] then Some (JStr rest) else None)"
    unfolding assms using parsed_version_string [OF p] .
  have d: "if 0 < i \<and> rest \<noteq> [] then version t = JStr rest
            else Some (version t)
                 = first_match_wins [map_option cfg_version (agents c (name t)),
                                     state_for s (name t) (js ''version''),
                                     Some (JStr (js ''latest''))]"
    if r: "resolveTarget (Some (JStr spec)) c s ov = Inr t" for t
  proof -
    from r obtain parsed' where "parseAgentSpec (Some (JStr spec)) = Inr parsed'"
      "Some (version t)
       = first_match_wins [parsed_version parsed', map_option cfg_version (agents c (name t)),
                           state_for s (name t) (js ''version''), Some (JStr (js ''latest''))]"
      by (rule resolveTarget_chains)
    with p have "Some (version t)
       = first_match_wins [parsed_version parsed, map_option cfg_version (agents c (name t)),
                           state_for s (name t) (js ''version''), Some (JStr (js ''latest''))]"
      by simp
    then show ?thesis unfolding pv by (auto split: if_splits)
  qed
  have e: "parseAgentSpec (Some (JStr (js ''@scope/name'')))
         = Inr (Some \<lparr>spec_name = js ''@scope/name'', spec_version = None\<rparr>)"
    by code_simp
  have f: "parseAgentSpec (Some (JStr (js ''codex@1.0'' @ [0xA0])))
         = Inr (Some \<lparr>spec_name = js ''codex'', spec_version = Some (js ''1.0'')\<rparr>)"
    by code_simp
  from p pv have g: "\<exists>parsed. parseAgentSpec (Some (JStr spec)) = Inr parsed
           \<and> parsed_version parsed = (if 0 < i \<and> rest \<noteq> [] then Some (JStr rest) else None)"
    by blast
  from d have h: "\<forall>t. resolveTarget (Some (JStr spec)) c s ov = Inr t \<longrightarrow>
           (if 0 < i \<and> rest \<noteq> [] then version t = JStr rest
            else Some (version t)
                 = first_match_wins [map_option cfg_version (agents c (name t)),
                                     state_for s (name t) (js ''version''),
                                     Some (JStr (js ''latest''))])"
    by blast
  from t a b g h e f show ?thesis by (intro conjI)
qed

theorem version_from_cliSpec_witness:
  "resolveTarget (Some (JStr (js '' codex@0.60.1 ''))) example_config example_state no_overrides
     = Inr \<lparr>name = js ''codex'', package = JStr (js ''@my/codex''), version = JStr (js ''0.60.1''),
            args = JStr (js ''resume'')\<rparr>
   \<and> 0 < lastIndexOf 0x40 (trim (js '' codex@0.60.1 ''))
   \<and> JStr (drop (nat (lastIndexOf 0x40 (trim (js '' codex@0.60.1 '')) + 1))
              (trim (js '' codex@0.60.1 '')))
       = JStr (js ''0.60.1'')"
proof -
  let ?t = "\<lparr>name = js ''codex'', package = JStr (js ''@my/codex''), version = JStr (js ''0.60.1''),
            args = JStr (js ''resume'')\<rparr>"
  let ?i = "lastIndexOf 0x40 (trim (js '' codex@0.60.1 ''))"
  let ?rest = "drop (nat (?i + 1)) (trim (js '' codex@0.60.1 ''))"
  have r: "resolveTarget (Some (JStr (js '' codex@0.60.1 ''))) example_config example_state no_overrides
             = Inr ?t"
    by code_simp
  have i: "0 < ?i" by code_simp
  have rest: "?rest \<noteq> []" by code_simp
  have "\<forall>t. resolveTarget (Some (JStr (js '' codex@0.60.1 ''))) example_config example_state
               no_overrides = Inr t \<longrightarrow>
           (if 0 < ?i \<and> ?rest \<noteq> [] then version t = JStr ?rest
            else Some (version t)
                 = first_match_wins [map_option cfg_version (agents example_config (name t)),
                                     state_for example_state (name t) (js ''version''),
                                     Some (JStr (js ''latest''))])"
    using version_from_cliSpec [OF refl refl refl, of " (js '' codex@0.60.1 '')"
             example_config example_state no_overrides]
    by (elim conjE)
  with r have "if 0 < ?i \<and> ?rest \<noteq> [] then version ?t = JStr ?rest
            else Some (version ?t)
                 = first_match_wins [map_option cfg_version (agents example_config (name ?t)),
                                     state_for example_state (name ?t) (js ''version''),
                                     Some (JStr (js ''latest''))]"
    by (elim allE impE)
  with i rest have "version ?t = JStr ?rest" by simp
  with r i show ?thesis by simp
qed

text \<open>
  C7. A name is normalized by trimming and lowercasing. Trimming strips white space, the
  code units that \<^verbatim>\<open>trim\<close> of ECMAScript strips, from the two ends and nothing
  else; lowercasing an ASCII string changes the letters A to Z only, to a to z. Whatever
  source the name comes from, \<^verbatim>\<open>resolveTarget\<close> fails with
  \<^verbatim>\<open>NoAgentSpecified\<close> when the normalized name is empty, fails with
  \<^verbatim>\<open>UnsupportedAgent\<close> when it is not one of \<^verbatim>\<open>codex\<close>,
  \<^verbatim>\<open>claude\<close>, \<^verbatim>\<open>gemini\<close>, and otherwise resolves to that name (unless
  the state holds a name that is no string, a TypeError). The name of a cliSpec is
  normalized when it is parsed and again when it is resolved: a cliSpec without
  \<^verbatim>\<open>@\<close> whose normalized text is not supported fails with
  \<^verbatim>\<open>UnsupportedAgent\<close> of that text, whatever its case and the white space
  around it. \<^verbatim>\<open>" CoDeX "\<close> resolves to \<^verbatim>\<open>codex\<close>, and
  \<^verbatim>\<open>CLAUDE\<close> between a no-break space and a tab on one side, a line separator
  and U+FEFF on the other, to \<^verbatim>\<open>claude\<close>; a capital E with acute is not
  supported, and the error names the small one. With no cliSpec name, no configuration
  default and no current name in the state, it fails with \<^verbatim>\<open>NoAgentSpecified\<close>.
\<close>

theorem names_normalized_then_checked:
  "normalizeAgentName (Some (JStr s)) = Inr (toLowerCase (trim s))
   \<and> (\<exists>a b. s = a @ trim s @ b \<and> list_all isWhitespace a \<and> list_all isWhitespace b
          \<and> (trim s \<noteq> [] \<longrightarrow>
                \<not> isWhitespace (hd (trim s)) \<and> \<not> isWhitespace (last (trim s))))
   \<and> (\<forall>u. isWhitespace u \<longleftrightarrow>
            u \<in> {0x09, 0x0A, 0x0B, 0x0C, 0x0D, 0x20, 0xA0, 0x1680, 0x2028, 0x2029, 0x202F,
                 0x205F, 0x3000, 0xFEFF}
            \<or> (0x2000 \<le> u \<and> u \<le> 0x200A))
   \<and> (list_all (\<lambda>u. u < 0x80) s \<longrightarrow>
        toLowerCase s = map (\<lambda>u. if 0x41 \<le> u \<and> u \<le> 0x5A then u + 0x20 else u) s)
   \<and> set SUPPORTED_AGENTS = {js ''codex'', js ''claude'', js ''gemini''}
   \<and> (\<forall>parsed raw nm.
         parseAgentSpec a = Inr parsed \<and> rawName parsed c st = Inr raw
         \<and> normalizeAgentName raw = Inr nm \<longrightarrow>
         (if nm = [] then resolveTarget a c st ov = Inl NoAgentSpecified
          else if nm \<notin> set SUPPORTED_AGENTS
            then resolveTarget a c st ov = Inl (UnsupportedAgent nm)
          else (\<exists>t. resolveTarget a c st ov = Inr t \<and> name t = nm)
               \<or> resolveTarget a c st ov = Inl TypeError))
   \<and> (0x40 \<notin> set s \<and> toLowerCase (trim (toLowerCase (trim s))) \<noteq> []
        \<and> toLowerCase (trim (toLowerCase (trim s))) \<notin> set SUPPORTED_AGENTS \<longrightarrow>
        resolveTarget (Some (JStr s)) c st ov
          = Inl (UnsupportedAgent (toLowerCase (trim (toLowerCase (trim s))))))
   \<and> (\<forall>t. resolveTarget a c st ov = Inr t \<longrightarrow> name t \<in> set SUPPORTED_AGENTS)
   \<and> (\<exists>t. resolveTarget (Some (JStr (js '' CoDeX ''))) c (JObj []) ov = Inr t
          \<and> name t = js ''codex'')
   \<and> (\<exists>t. resolveTarget (Some (JStr ([0xA0, 0x09] @ js ''CLAUDE'' @ [0x2028, 0xFEFF])))
              c (JObj []) ov = Inr t
          \<and> name t = js ''claude'')
   \<and> resolveTarget (Some (JStr [0x20, 0xC9])) c st ov = Inl (UnsupportedAgent [0xE9])
   \<and> (parseAgentSpec a = Inr None \<and> \<not> truthy (Some (default_name c)) \<and> st \<noteq> JNull
        \<and> \<not> truthy (get_opt (get st (js ''current'')) (js ''name'')) \<longrightarrow>
        resolveTarget a c st ov = Inl NoAgentSpecified)"
proof -
  have s: "set SUPPORTED_AGENTS = {js ''codex'', js ''claude'', js ''gemini''}"
    by (simp add: SUPPORTED_AGENTS_def)
  have acute: "resolveTarget (Some (JStr [0x20, 0xC9])) c st ov = Inl (UnsupportedAgent [0xE9])"
  proof -
    have n: "toLowerCase (trim (toLowerCase (trim [0x20, 0xC9]))) = [0xE9]" by code_simp
    have "(0x40 :: int) \<notin> set [0x20, 0xC9]" by simp
    moreover have "toLowerCase (trim (toLowerCase (trim [0x20, 0xC9]))) \<noteq> []" unfolding n by simp
    moreover have "toLowerCase (trim (toLowerCase (trim [0x20, 0xC9]))) \<notin> set SUPPORTED_AGENTS"
      unfolding n by code_simp
    ultimately have "resolveTarget (Some (JStr [0x20, 0xC9])) c st ov
          = Inl (UnsupportedAgent (toLowerCase (trim (toLowerCase (trim [0x20, 0xC9])))))"
      by (rule unsupported_cliSpec)
    then show ?thesis unfolding n .
  qed
  show ?thesis
  proof (intro conjI allI impI)
    show "normalizeAgentName (Some (JStr s)) = Inr (toLowerCase (trim s))"
      by (rule normalizeAgentName_string)
    show "\<exists>a b. s = a @ trim s @ b \<and> list_all isWhitespace a \<and> list_all isWhitespace b
          \<and> (trim s \<noteq> [] \<longrightarrow>
                \<not> isWhitespace (hd (trim s)) \<and> \<not> isWhitespace (last (trim s)))"
      using trim_split [of s] trim_hd [of s] trim_last [of s] by blast
    show "set SUPPORTED_AGENTS = {js ''codex'', js ''claude'', js ''gemini''}" by (rule s)
    show "\<exists>t. resolveTarget (Some (JStr (js '' CoDeX ''))) c (JObj []) ov = Inr t
          \<and> name t = js ''codex''"
      by (rule codex_mixed_case)
    show "\<exists>t. resolveTarget (Some (JStr ([0xA0, 0x09] @ js ''CLAUDE'' @ [0x2028, 0xFEFF])))
              c (JObj []) ov = Inr t
          \<and> name t = js ''claude''"
      by (rule claude_unicode_space)
    show "resolveTarget (Some (JStr [0x20, 0xC9])) c st ov = Inl (UnsupportedAgent [0xE9])"
      by (rule acute)
  next
    fix u :: int
    show "isWhitespace u \<longleftrightarrow>
            u \<in> {0x09, 0x0A, 0x0B, 0x0C, 0x0D, 0x20, 0xA0, 0x1680, 0x2028, 0x2029, 0x202F,
                 0x205F, 0x3000, 0xFEFF}
            \<or> (0x2000 \<le> u \<and> u \<le> 0x200A)"
      by (simp add: isWhitespace_def)
  next
    assume "list_all (\<lambda>u. u < 0x80) s"
    then have "\<forall>u \<in> set s. u < 0x80" by (simp add: list_all_iff)
    then show "toLowerCase s = map (\<lambda>u. if 0x41 \<le> u \<and> u \<le> 0x5A then u + 0x20 else u) s"
      by (rule toLowerCase_ascii)
  next
    fix parsed raw nm
    assume "parseAgentSpec a = Inr parsed \<and> rawName parsed c st = Inr raw
              \<and> normalizeAgentName raw = Inr nm"
    then show "if nm = [] then resolveTarget a c st ov = Inl NoAgentSpecified
          else if nm \<notin> set SUPPORTED_AGENTS
            then resolveTarget a c st ov = Inl (UnsupportedAgent nm)
          else (\<exists>t. resolveTarget a c st ov = Inr t \<and> name t = nm)
               \<or> resolveTarget a c st ov = Inl TypeError"
      using resolveTarget_by_name [of a parsed c st raw nm ov] by blast
  next
    assume "0x40 \<notin> set s \<and> toLowerCase (trim (toLowerCase (trim s))) \<noteq> []
        \<and> toLowerCase (trim (toLowerCase (trim s))) \<notin> set SUPPORTED_AGENTS"
    then show "resolveTarget (Some (JStr s)) c st ov
          = Inl (UnsupportedAgent (toLowerCase (trim (toLowerCase (trim s)))))"
      using unsupported_cliSpec [of s c st ov] by blast
  next
    fix t assume "resolveTarget a c st ov = Inr t"
    then show "name t \<in> set SUPPORTED_AGENTS" by (rule resolveTarget_name_supported)
  next
    assume "parseAgentSpec a = Inr None \<and> \<not> truthy (Some (default_name c)) \<and> st \<noteq> JNull
        \<and> \<not> truthy (get_opt (get st (js ''current'')) (js ''name''))"
    then show "resolveTarget a c st ov = Inl NoAgentSpecified"
      using no_name_available [of a c st ov] by blast
  qed
qed

theorem names_normalized_then_checked_witness:
  "resolveTarget (Some (JStr (js '' Cursor ''))) example_config example_state no_overrides
     = Inl (UnsupportedAgent (js ''cursor''))"
proof -
  have a: "0x40 \<notin> set (js '' Cursor '')" by code_simp
  have n: "toLowerCase (trim (toLowerCase (trim (js '' Cursor '')))) = js ''cursor''" by code_simp
  have b: "toLowerCase (trim (toLowerCase (trim (js '' Cursor '')))) \<noteq> []" unfolding n by simp
  have c: "toLowerCase (trim (toLowerCase (trim (js '' Cursor '')))) \<notin> set SUPPORTED_AGENTS"
    unfolding n by code_simp
  have "0x40 \<notin> set (js '' Cursor '')
        \<and> toLowerCase (trim (toLowerCase (trim (js '' Cursor '')))) \<noteq> []
        \<and> toLowerCase (trim (toLowerCase (trim (js '' Cursor '')))) \<notin> set SUPPORTED_AGENTS \<longrightarrow>
        resolveTarget (Some (JStr (js '' Cursor ''))) example_config example_state no_overrides
          = Inl (UnsupportedAgent (toLowerCase (trim (toLowerCase (trim (js '' Cursor ''))))))"
    using names_normalized_then_checked
            [of "js '' Cursor ''" None example_config example_state no_overrides]
    by (elim conjE)
  with a b c show ?thesis unfolding n by (elim impE) (intro conjI)
qed

section \<open>Properties of the file system\<close>

lemma ancestors_iff: "q \<in> set (ancestors p) \<longleftrightarrow> strict_prefix q p"
proof (induction p rule: rev_induct)
  case Nil
  show ?case by (simp add: ancestors_def)
next
  case (snoc x xs)
  have "ancestors (xs @ [x]) = prefixes xs" by (simp add: ancestors_def)
  then show ?case by (auto simp: strict_prefix_def)
qed

lemma blocked_iff: "blocked w p \<longleftrightarrow> (\<exists>q. strict_prefix q p \<and> is_file (fs w q))"
  by (auto simp: blocked_def list_ex_iff ancestors_iff)

lemma is_file_iff: "is_file x \<longleftrightarrow> (\<exists>c. x = Some (File c))"
  by (cases x rule: is_file.cases) auto

lemma blocked_cong:
  "(\<And>q. is_file (fs w' q) = is_file (fs w q)) \<Longrightarrow> blocked w' p = blocked w p"
  by (simp add: blocked_iff)

lemma mkdir_Inr:
  assumes "mkdir p w = (Inr u, w')"
  shows "\<not> blocked w p" "\<not> is_file (fs w p)"
    "fs w' = (\<lambda>q. if prefix q p then Some Dir else fs w q)" "trace w' = trace w"
  using assms by (auto simp: mkdir_def split: if_splits)

lemma mkdir_InrI:
  assumes "\<not> blocked w p" "\<not> is_file (fs w p)"
  shows "mkdir p w = (Inr (), w\<lparr>fs := (\<lambda>q. if prefix q p then Some Dir else fs w q)\<rparr>)"
  using assms by (simp add: mkdir_def)

lemma mkdir_is_file:
  assumes "mkdir p w = (Inr u, w')"
  shows "is_file (fs w' q) = is_file (fs w q)"
proof (cases "prefix q p")
  case True
  then have "q = p \<or> strict_prefix q p" by (auto simp: strict_prefix_def)
  then have "\<not> is_file (fs w q)"
    using mkdir_Inr(1,2) [OF assms] by (auto simp: blocked_iff)
  with True show ?thesis by (simp add: mkdir_Inr(3) [OF assms])
next
  case False
  then show ?thesis by (simp add: mkdir_Inr(3) [OF assms])
qed

lemma mkdir_blocked:
  "mkdir p w = (Inr u, w') \<Longrightarrow> blocked w' q = blocked w q"
  by (rule blocked_cong) (rule mkdir_is_file)

lemma mkdir_exists:
  "mkdir p w = (Inr u, w') \<Longrightarrow> fs w' p = Some Dir"
  by (simp add: mkdir_Inr(3))

lemma writeFile_Inr:
  assumes "writeFile p c w = (Inr u, w')"
  shows "\<not> blocked w p" "fs w (dirname p) = Some Dir" "fs w p \<noteq> Some Dir"
    "fs w' = (fs w)(p \<mapsto> File c)" "trace w' = trace w"
  using assms by (auto simp: writeFile_def split: if_splits)

lemma writeFile_blocked:
  assumes "writeFile p c w = (Inr u, w')"
  shows "blocked w' q \<longleftrightarrow> blocked w q \<or> strict_prefix p q"
  by (auto simp: blocked_iff writeFile_Inr(4) [OF assms])

lemma readFile_Inr: "readFile p w = Inr c \<longleftrightarrow> \<not> blocked w p \<and> fs w p = Some (File c)"
  by (auto simp: readFile_def split: option.splits node.splits)

lemma readFile_ENOENT: "readFile p w = Inl ENOENT \<longleftrightarrow> \<not> blocked w p \<and> fs w p = None"
  by (auto simp: readFile_def split: option.splits node.splits)

lemma readJson_cases:
  "readJson file fallback w =
     (case readFile file w of
        Inl err \<Rightarrow> if err = ENOENT then Inr fallback else Inl err
      | Inr (JsonText v) \<Rightarrow> Inr v
      | Inr OtherText \<Rightarrow> Inl SyntaxError)"
  by (simp add: readJson_def JSON_parse_def split: sum.splits contents.splits)

lemma writeJson_Inr:
  assumes "writeJson file d w = (Inr u, w')"
  obtains w1 where "mkdir (dirname file) w = (Inr (), w1)"
    "writeFile file (JsonText d) w1 = (Inr (), w')"
  using assms by (auto simp: writeJson_def split: prod.splits sum.splits)

lemma writeJson_fs:
  assumes "writeJson file d w = (Inr u, w')"
  shows "fs w' = (\<lambda>q. if q = file then Some (File (JsonText d))
                      else if prefix q (dirname file) then Some Dir else fs w q)"
    "trace w' = trace w" "\<not> blocked w' file"
proof -
  from assms obtain w1 where m: "mkdir (dirname file) w = (Inr (), w1)"
    and wr: "writeFile file (JsonText d) w1 = (Inr (), w')"
    by (rule writeJson_Inr)
  show "fs w' = (\<lambda>q. if q = file then Some (File (JsonText d))
                      else if prefix q (dirname file) then Some Dir else fs w q)"
    by (rule ext) (simp add: writeFile_Inr(4) [OF wr] mkdir_Inr(3) [OF m])
  show "trace w' = trace w"
    by (simp add: writeFile_Inr(5) [OF wr] mkdir_Inr(4) [OF m])
  show "\<not> blocked w' file"
    using writeFile_Inr(1) [OF wr] by (simp add: writeFile_blocked [OF wr])
qed

lemma writeJson_readJson:
  assumes "writeJson file d w = (Inr u, w')"
  shows "readJson file fallback w' = Inr d"
proof -
  have "readFile file w' = Inr (JsonText d)"
    using writeJson_fs(1,3) [OF assms] by (simp add: readFile_Inr)
  then show ?thesis by (simp add: readJson_cases)
qed

lemma writeJson_is_file:
  assumes "writeJson file d w = (Inr u, w')"
  shows "is_file (fs w' q) \<longleftrightarrow> q = file \<or> is_file (fs w q)"
proof -
  from assms obtain w1 where m: "mkdir (dirname file) w = (Inr (), w1)"
    and wr: "writeFile file (JsonText d) w1 = (Inr (), w')"
    by (rule writeJson_Inr)
  show ?thesis
    using mkdir_is_file [OF m, of q] by (simp add: writeFile_Inr(4) [OF wr])
qed

lemma writeJson_again:
  assumes "writeJson file d w = (Inr u, w')" "file \<noteq> []"
  shows "\<exists>w''. writeJson file d' w' = (Inr (), w'')"
proof -
  from assms(1) obtain w1 where m: "mkdir (dirname file) w = (Inr (), w1)"
    and wr: "writeFile file (JsonText d) w1 = (Inr (), w')"
    by (rule writeJson_Inr)
  from assms(2) obtain xs x where fl: "file = xs @ [x]" by (cases "file" rule: rev_cases) auto
  have ne: "dirname file \<noteq> file" "\<not> prefix file (dirname file)" "\<not> strict_prefix file (dirname file)"
    by (simp_all add: fl dirname_def strict_prefix_def)
  have f: "is_file (fs w' q) \<longleftrightarrow> q = file \<or> is_file (fs w q)" for q
    by (rule writeJson_is_file [OF assms(1)])
  have "\<not> blocked w' (dirname file)"
  proof
    assume "blocked w' (dirname file)"
    then obtain q where q: "strict_prefix q (dirname file)" "q = file \<or> is_file (fs w q)"
      by (auto simp: blocked_iff f)
    from q(1) have "q \<noteq> file" by (auto simp: fl dirname_def strict_prefix_def)
    with q have "blocked w (dirname file)" by (auto simp: blocked_iff)
    with mkdir_Inr(1) [OF m] show False by simp
  qed
  moreover have "\<not> is_file (fs w' (dirname file))"
    using mkdir_Inr(2) [OF m] ne by (simp add: f)
  ultimately obtain w2 where m2: "mkdir (dirname file) w' = (Inr (), w2)"
    using mkdir_InrI by blast
  have "\<not> blocked w2 file"
    using writeJson_fs(3) [OF assms(1)] by (simp add: mkdir_blocked [OF m2])
  moreover have "fs w2 (dirname file) = Some Dir" by (rule mkdir_exists [OF m2])
  moreover have "fs w2 file \<noteq> Some Dir"
    using ne by (simp add: mkdir_Inr(3) [OF m2] writeJson_fs(1) [OF assms(1)])
  ultimately have "\<exists>w''. writeFile file (JsonText d') w2 = (Inr (), w'')"
    by (simp add: writeFile_def)
  with m2 show ?thesis by (auto simp: writeJson_def)
qed

text \<open>The environment stays as it is.\<close>

lemma AVM_HOME_update [simp]:
  "AVM_HOME (w\<lparr>fs := f\<rparr>) = AVM_HOME w" "AVM_HOME (w\<lparr>trace := tr\<rparr>) = AVM_HOME w"
  by (simp_all add: AVM_HOME_def split: option.splits)

lemma same_home:
  assumes "AVM_HOME w' = AVM_HOME w"
  shows "AGENTS_DIR w' = AGENTS_DIR w" "STATE_FILE w' = STATE_FILE w"
    "agentDir nm w' = agentDir nm w" "installDir nm ver w' = installDir nm ver w"
    "npm_args t reg w' = npm_args t reg w"
  by (simp_all add: AGENTS_DIR_def STATE_FILE_def agentDir_def installDir_def npm_args_def assms)


lemma mkdir_home: "mkdir p w = (r, w') \<Longrightarrow> AVM_HOME w' = AVM_HOME w"
  by (auto simp: mkdir_def split: if_splits)

lemma writeFile_home: "writeFile p c w = (r, w') \<Longrightarrow> AVM_HOME w' = AVM_HOME w"
  by (auto simp: writeFile_def split: if_splits)

lemma writeJson_home: "writeJson file d w = (r, w') \<Longrightarrow> AVM_HOME w' = AVM_HOME w"
proof -
  obtain r1 w1 where m: "mkdir (dirname file) w = (r1, w1)" by (cases "mkdir (dirname file) w")
  assume wj: "writeJson file d w = (r, w')"
  show ?thesis
  proof (cases r1)
    case (Inl e)
    with wj m have "w' = w1" by (simp add: writeJson_def)
    with mkdir_home [OF m] show ?thesis by simp
  next
    case (Inr u)
    with wj m have "writeFile file (JsonText d) w1 = (r, w')" by (simp add: writeJson_def)
    from writeFile_home [OF this] mkdir_home [OF m] show ?thesis by simp
  qed
qed

section \<open>Properties of objects\<close>

lemma map_of_assign:
  "map_of (assign base props) k =
     (case map_of (rev props) k of Some v \<Rightarrow> Some v | None \<Rightarrow> map_of base k)"
proof (induction props arbitrary: base)
  case Nil
  show ?case by (simp add: assign_def)
next
  case (Cons p ps)
  obtain k' v' where p: "p = (k', v')" by (cases p)
  have "assign base (p # ps) = assign (AList.update k' v' base) ps"
    by (simp add: assign_def p)
  then show ?case
    by (simp add: Cons.IH p update_conv' map_add_def split: option.splits)
qed

lemma distinct_assign:
  "distinct (map fst base) \<Longrightarrow> distinct (map fst (assign base props))"
proof (induction props arbitrary: base)
  case Nil
  then show ?case by (simp add: assign_def)
next
  case (Cons p ps)
  obtain k' v' where p: "p = (k', v')" by (cases p)
  have "assign base (p # ps) = assign (AList.update k' v' base) ps"
    by (simp add: assign_def p)
  with Cons show ?case by (simp add: distinct_update)
qed

lemma map_of_rev_distinct:
  "distinct (map fst xs) \<Longrightarrow> map_of (rev xs) = map_of xs"
proof (induction xs)
  case Nil
  show ?case by simp
next
  case (Cons x xs)
  then have "fst x \<notin> dom (map_of xs)" by (auto simp: dom_map_of_conv_image_fst)
  then have "map_of xs (fst x) = None" by blast
  with Cons show ?case
    by (cases x) (auto simp: map_add_def fun_eq_iff split: option.splits)
qed

declare show_nat.simps [simp del]

lemma show_nat_nonempty: "show_nat n \<noteq> []"
  by (subst show_nat.simps) simp

lemma show_nat_inj: "show_nat n = show_nat m \<Longrightarrow> n = m"
proof (induction n arbitrary: m rule: show_nat.induct)
  case (1 n)
  show ?case
  proof (cases "n < 10")
    case True
    note n = this
    show ?thesis
    proof (cases "m < 10")
      case True
      with n "1.prems" show ?thesis
        by (simp add: show_nat.simps [of n] show_nat.simps [of m])
    next
      case False
      with n "1.prems" show ?thesis
        using show_nat_nonempty [of "m div 10"]
        by (simp add: show_nat.simps [of n] show_nat.simps [of m])
    qed
  next
    case False
    note n = this
    show ?thesis
    proof (cases "m < 10")
      case True
      with n "1.prems" show ?thesis
        using show_nat_nonempty [of "n div 10"]
        by (simp add: show_nat.simps [of n] show_nat.simps [of m])
    next
      case False
      with n "1.prems" have e: "show_nat (n div 10) = show_nat (m div 10)"
        "n mod 10 = m mod 10"
        by (simp_all add: show_nat.simps [of n] show_nat.simps [of m])
      from "1.IH" [OF n e(1)] have "n div 10 = m div 10" .
      with e(2) show ?thesis by (metis div_mult_mod_eq)
    qed
  qed
qed

lemma distinct_indices: "distinct (map show_nat [0..<n])"
  by (simp add: distinct_map inj_on_def) (metis show_nat_inj)

lemma distinct_entries: "distinct (map fst (entries v))"
  by (cases v) (simp_all add: distinct_assign distinct_indices)

lemma update_fresh: "k \<notin> fst ` set al \<Longrightarrow> AList.update k v al = al @ [(k, v)]"
  by (induction al) auto

lemma assign_append:
  "distinct (map fst (base @ kvs)) \<Longrightarrow> assign base kvs = base @ kvs"
proof (induction kvs arbitrary: base)
  case Nil
  show ?case by (simp add: assign_def)
next
  case (Cons p ps)
  obtain k v where p: "p = (k, v)" by (cases p)
  from Cons.prems have "k \<notin> fst ` set base" by (auto simp: p)
  then have u: "AList.update k v base = base @ [(k, v)]" by (rule update_fresh)
  have "assign base (p # ps) = assign (base @ [(k, v)]) ps"
    by (simp add: assign_def p u)
  also have "\<dots> = (base @ [(k, v)]) @ ps"
    using Cons.prems by (intro Cons.IH) (simp add: p)
  finally show ?case by (simp add: p)
qed

lemma entries_distinct_obj: "distinct (map fst kvs) \<Longrightarrow> entries (JObj kvs) = kvs"
  using assign_append [of "[]" kvs] by simp

lemma get_distinct_obj: "distinct (map fst kvs) \<Longrightarrow> get (JObj kvs) k = map_of kvs k"
  by (simp add: get_def entries_distinct_obj del: entries.simps)


lemma get_assign2:
  "get (JObj (assign (assign (entries v) props) props')) k =
     (case map_of (rev props') k of Some x \<Rightarrow> Some x
      | None \<Rightarrow> (case map_of (rev props) k of Some x \<Rightarrow> Some x | None \<Rightarrow> get v k))"
proof -
  have d: "distinct (map fst (assign (assign (entries v) props) props'))"
    by (intro distinct_assign) (rule distinct_entries)
  show ?thesis
    unfolding get_distinct_obj [OF d] map_of_assign by (simp add: get_def split: option.splits)
qed

lemma get_patch_obj: "map_of (rev (entries (JObj kvs))) k = get (JObj kvs) k"
  using map_of_rev_distinct [OF distinct_entries [of "JObj kvs"]] by (simp add: get_def)

section \<open>Reading and writing the state\<close>

declare findConfigFile.simps [simp del]

lemma readState_cases:
  "readState w =
     (case readFile (STATE_FILE w) w of
        Inl err \<Rightarrow> if err = ENOENT then Inr (JObj []) else Inl err
      | Inr (JsonText v) \<Rightarrow> Inr (if truthy (Some v) then v else JObj [])
      | Inr OtherText \<Rightarrow> Inl SyntaxError)"
  by (simp add: readState_def readJson_cases or_else_def split: sum.splits contents.splits)

lemma findConfigFile_None:
  "findConfigFile dir w = None \<longleftrightarrow>
     (\<forall>d. prefix d dir \<longrightarrow> \<not> pathExists (path_join d (js ''avm.config.json'')) w)"
proof (induction dir w rule: findConfigFile.induct)
  case (1 dir w)
  let ?P = "\<lambda>d. pathExists (path_join d (js ''avm.config.json'')) w"
  show ?case
  proof (cases "?P dir")
    case True
    then have "findConfigFile dir w \<noteq> None"
      by (subst findConfigFile.simps) (simp add: Let_def)
    moreover have "prefix dir dir" by simp
    ultimately show ?thesis using True by blast
  next
    case False
    note nf = this
    show ?thesis
    proof (cases dir rule: rev_cases)
      case Nil
      then have "findConfigFile dir w = None"
        using nf by (subst findConfigFile.simps) (simp add: Let_def dirname_def)
      moreover have "\<forall>d. prefix d dir \<longrightarrow> \<not> ?P d" using nf Nil by simp
      ultimately show ?thesis by blast
    next
      case (snoc xs x)
      then have ne: "dirname dir \<noteq> dir" and dn: "dirname dir = xs" by (simp_all add: dirname_def)
      have "findConfigFile dir w = findConfigFile xs w"
        using nf ne dn by (subst findConfigFile.simps) (simp add: Let_def)
      moreover have "findConfigFile xs w = None \<longleftrightarrow> (\<forall>d. prefix d xs \<longrightarrow> \<not> ?P d)"
        using "1.IH" [OF refl nf ne] unfolding dn .
      moreover have "(\<forall>d. prefix d dir \<longrightarrow> \<not> ?P d) \<longleftrightarrow> (\<forall>d. prefix d xs \<longrightarrow> \<not> ?P d)"
        unfolding snoc prefix_snoc using nf snoc by blast
      ultimately show ?thesis by simp
    qed
  qed
qed

lemma findConfigFile_Some:
  "findConfigFile dir w = Some p \<Longrightarrow>
     \<exists>d. prefix d dir \<and> p = path_join d (js ''avm.config.json'') \<and> pathExists p w"
proof (induction dir w rule: findConfigFile.induct)
  case (1 dir w)
  show ?case
  proof (cases "pathExists (path_join dir (js ''avm.config.json'')) w")
    case True
    with "1.prems" show ?thesis by (subst (asm) findConfigFile.simps) (auto simp: Let_def)
  next
    case False
    note nf = this
    show ?thesis
    proof (cases "dirname dir = dir")
      case True
      with nf "1.prems" show ?thesis by (subst (asm) findConfigFile.simps) (simp add: Let_def)
    next
      case False
      from "1.prems" nf False have "findConfigFile (dirname dir) w = Some p"
        by (subst (asm) findConfigFile.simps) (simp add: Let_def)
      from "1.IH" [OF refl nf False this] obtain d where
        "prefix d (dirname dir)" "p = path_join d (js ''avm.config.json'')" "pathExists p w" by blast
      moreover have "prefix (dirname dir) dir" by (cases dir rule: rev_cases) (auto simp: dirname_def)
      ultimately show ?thesis using prefix_order.trans by blast
    qed
  qed
qed

lemma loadProjectConfig_missing:
  "findConfigFile cwd w = None \<Longrightarrow> loadProjectConfig cwd w = Inr empty_config"
  by (simp add: loadProjectConfig_def empty_config_def)

lemma loadProjectConfig_corrupt:
  "findConfigFile cwd w = Some p \<Longrightarrow> readFile p w = Inr OtherText \<Longrightarrow>
     loadProjectConfig cwd w = Inl (ConfigParseError p SyntaxError)"
  by (simp add: loadProjectConfig_def JSON_parse_def)

lemma STATE_FILE_eq: "STATE_FILE w = AVM_HOME w @ [js ''state.json'']"
proof -
  have "split_on 0x2F (js ''state.json'') = [js ''state.json'']" by code_simp
  then show ?thesis by (simp add: STATE_FILE_def path_join_def join_segment_def)
qed

lemma readState_readJson:
  "readState w = (case readJson (STATE_FILE w) (JObj []) w of
                    Inl e \<Rightarrow> Inl e
                  | Inr v \<Rightarrow> Inr (if truthy (Some v) then v else JObj []))"
  by (simp add: readState_def or_else_def split: sum.splits)

lemma writeState_Inr:
  assumes "writeState patch now w = (Inr u, w')"
  obtains previous where "readState w = Inr previous"
    "writeJson (STATE_FILE w)
       (JObj (assign (assign (entries previous) (entries patch)) [(js ''updatedAt'', JStr now)])) w
     = (Inr (), w')"
    "readState w'
     = Inr (JObj (assign (assign (entries previous) (entries patch)) [(js ''updatedAt'', JStr now)]))"
proof -
  from assms obtain v where v: "readJson (STATE_FILE w) (JObj []) w = Inr v"
    by (auto simp: writeState_def split: sum.splits)
  let ?previous = "or_else (Some v) (JObj [])"
  let ?next = "JObj (assign (assign (entries ?previous) (entries patch)) [(js ''updatedAt'', JStr now)])"
  have p: "readState w = Inr ?previous" by (simp add: readState_def v)
  have wj: "writeJson (STATE_FILE w) ?next w = (Inr (), w')"
    using assms by (simp add: writeState_def v Let_def)
  have sf: "STATE_FILE w' = STATE_FILE w" by (rule same_home(2) [OF writeJson_home [OF wj]])
  have "readJson (STATE_FILE w) (JObj []) w' = Inr ?next" by (rule writeJson_readJson [OF wj])
  then have "readState w' = Inr ?next" by (simp add: readState_readJson sf)
  with p wj show ?thesis by (rule that)
qed

lemma writeState_again:
  assumes "writeState patch now w = (Inr u, w')"
  shows "\<exists>w''. writeState patch' now' w' = (Inr (), w'')"
proof -
  from assms obtain previous where
    wj: "writeJson (STATE_FILE w)
       (JObj (assign (assign (entries previous) (entries patch)) [(js ''updatedAt'', JStr now)])) w
     = (Inr (), w')"
    by (rule writeState_Inr)
  have sf: "STATE_FILE w' = STATE_FILE w" by (rule same_home(2) [OF writeJson_home [OF wj]])
  have r: "readJson (STATE_FILE w) (JObj []) w'
        = Inr (JObj (assign (assign (entries previous) (entries patch)) [(js ''updatedAt'', JStr now)]))"
    by (rule writeJson_readJson [OF wj])
  have "STATE_FILE w \<noteq> []" by (simp add: STATE_FILE_eq)
  from writeJson_again [OF wj this] show ?thesis
    by (simp add: writeState_def r Let_def sf)
qed

text \<open>
  C4, as the code has it. The claim that \<^verbatim>\<open>readState\<close> returns an empty object for
  a corrupt state file fails: in \<open>corrupt_world\<close> the state file holds text that is no
  JSON and \<^verbatim>\<open>readState\<close> raises the SyntaxError of \<^verbatim>\<open>JSON.parse\<close>, since
  \<^verbatim>\<open>readJson\<close> catches \<^verbatim>\<open>ENOENT\<close> only.
\<close>

theorem corrupt_state_raises: "readState corrupt_world = Inl SyntaxError"
  by code_simp

text \<open>
  C4, amended. A state file is missing exactly when nothing is at its path; then
  \<^verbatim>\<open>readState\<close> returns the empty object. When the file holds JSON,
  \<^verbatim>\<open>readState\<close> returns its value, or the empty object when the value is falsy
  (\<^verbatim>\<open>null\<close>, say). When the file holds text that is no JSON, \<^verbatim>\<open>readState\<close>
  raises the SyntaxError. No configuration file is found exactly when no directory from the
  working directory up to the root has one; then \<^verbatim>\<open>loadProjectConfig\<close> returns the
  empty configuration. A configuration file that is no JSON is fatal:
  \<^verbatim>\<open>loadProjectConfig\<close> raises the parse error with the file's path.
\<close>

theorem state_and_config_reading:
  "(readFile (STATE_FILE w) w = Inl ENOENT \<longleftrightarrow> \<not> blocked w (STATE_FILE w) \<and> fs w (STATE_FILE w) = None)
   \<and> (readFile (STATE_FILE w) w = Inl ENOENT \<longrightarrow> readState w = Inr (JObj []))
   \<and> (\<forall>v. readFile (STATE_FILE w) w = Inr (JsonText v) \<longrightarrow>
           readState w = Inr (if truthy (Some v) then v else JObj []))
   \<and> (readFile (STATE_FILE w) w = Inr OtherText \<longrightarrow> readState w = Inl SyntaxError)
   \<and> (findConfigFile cwd w = None \<longleftrightarrow>
        (\<forall>d. prefix d cwd \<longrightarrow> \<not> pathExists (path_join d (js ''avm.config.json'')) w))
   \<and> (findConfigFile cwd w = None \<longrightarrow> loadProjectConfig cwd w = Inr empty_config)
   \<and> (\<forall>p. findConfigFile cwd w = Some p \<and> readFile p w = Inr OtherText \<longrightarrow>
           loadProjectConfig cwd w = Inl (ConfigParseError p SyntaxError))"
proof (intro conjI allI impI)
  show "readFile (STATE_FILE w) w = Inl ENOENT \<longleftrightarrow> \<not> blocked w (STATE_FILE w) \<and> fs w (STATE_FILE w) = None"
    by (rule readFile_ENOENT)
  show "findConfigFile cwd w = None \<longleftrightarrow>
        (\<forall>d. prefix d cwd \<longrightarrow> \<not> pathExists (path_join d (js ''avm.config.json'')) w)"
    by (rule findConfigFile_None)
next
  assume "readFile (STATE_FILE w) w = Inl ENOENT"
  then show "readState w = Inr (JObj [])" by (simp add: readState_cases)
next
  fix v assume "readFile (STATE_FILE w) w = Inr (JsonText v)"
  then show "readState w = Inr (if truthy (Some v) then v else JObj [])"
    by (simp add: readState_cases)
next
  assume "readFile (STATE_FILE w) w = Inr OtherText"
  then show "readState w = Inl SyntaxError" by (simp add: readState_cases)
next
  assume "findConfigFile cwd w = None"
  then show "loadProjectConfig cwd w = Inr empty_config" by (rule loadProjectConfig_missing)
next
  fix p assume "findConfigFile cwd w = Some p \<and> readFile p w = Inr OtherText"
  then show "loadProjectConfig cwd w = Inl (ConfigParseError p SyntaxError)"
    using loadProjectConfig_corrupt by blast
qed

theorem state_and_config_reading_witness:
  "readState fresh_world = Inr (JObj [])
   \<and> loadProjectConfig [js ''proj'', js ''src''] fresh_world = Inr empty_config
   \<and> readState corrupt_world = Inl SyntaxError
   \<and> loadProjectConfig [js ''proj'', js ''src''] corrupt_world
       = Inl (ConfigParseError [js ''proj'', js ''avm.config.json''] SyntaxError)"
proof -
  have a: "readFile (STATE_FILE fresh_world) fresh_world = Inl ENOENT" by code_simp
  have b: "findConfigFile [js ''proj'', js ''src''] fresh_world = None" by code_simp
  have c: "readFile (STATE_FILE corrupt_world) corrupt_world = Inr OtherText" by code_simp
  have d: "findConfigFile [js ''proj'', js ''src''] corrupt_world = Some [js ''proj'', js ''avm.config.json'']"
    by code_simp
  have e: "readFile [js ''proj'', js ''avm.config.json''] corrupt_world = Inr OtherText" by code_simp
  note f = state_and_config_reading [of fresh_world "[js ''proj'', js ''src'']"]
  note g = state_and_config_reading [of corrupt_world "[js ''proj'', js ''src'']"]
  have "readFile (STATE_FILE fresh_world) fresh_world = Inl ENOENT \<longrightarrow> readState fresh_world = Inr (JObj [])"
    using f by (elim conjE)
  with a have 1: "readState fresh_world = Inr (JObj [])" by (elim impE)
  have "findConfigFile [js ''proj'', js ''src''] fresh_world = None \<longrightarrow>
          loadProjectConfig [js ''proj'', js ''src''] fresh_world = Inr empty_config"
    using f by (elim conjE)
  with b have 2: "loadProjectConfig [js ''proj'', js ''src''] fresh_world = Inr empty_config"
    by (elim impE)
  have "readFile (STATE_FILE corrupt_world) corrupt_world = Inr OtherText \<longrightarrow>
          readState corrupt_world = Inl SyntaxError"
    using g by (elim conjE)
  with c have 3: "readState corrupt_world = Inl SyntaxError" by (elim impE)
  have "\<forall>p. findConfigFile [js ''proj'', js ''src''] corrupt_world = Some p
              \<and> readFile p corrupt_world = Inr OtherText \<longrightarrow>
           loadProjectConfig [js ''proj'', js ''src''] corrupt_world
             = Inl (ConfigParseError p SyntaxError)"
    using g by (elim conjE)
  then have "findConfigFile [js ''proj'', js ''src''] corrupt_world = Some [js ''proj'', js ''avm.config.json'']
              \<and> readFile [js ''proj'', js ''avm.config.json''] corrupt_world = Inr OtherText \<longrightarrow>
           loadProjectConfig [js ''proj'', js ''src''] corrupt_world
             = Inl (ConfigParseError [js ''proj'', js ''avm.config.json''] SyntaxError)"
    by (rule spec)
  with d e have 4: "loadProjectConfig [js ''proj'', js ''src''] corrupt_world
       = Inl (ConfigParseError [js ''proj'', js ''avm.config.json''] SyntaxError)"
    by (elim impE) (rule conjI)
  from 1 2 3 4 show ?thesis by (intro conjI)
qed

text \<open>
  C6. When \<^verbatim>\<open>writeState\<close> with a patch object returns, the state that
  \<^verbatim>\<open>readState\<close> then reads is the whole object written to the state file: its
  \<^verbatim>\<open>updatedAt\<close> is the time stamp, every other key of the patch has the patch's
  value, and every other key has the value it had in the state read before. After writing
  \<^verbatim>\<open>{current: X}\<close>, writing \<^verbatim>\<open>{self: Y}\<close> returns too, and the state then
  holds both \<^verbatim>\<open>current = X\<close> and \<^verbatim>\<open>self = Y\<close>.
\<close>

theorem writeState_merges:
  assumes "writeState (JObj kvs) now w = (Inr u, w')"
  shows "\<exists>previous next.
     readState w = Inr previous \<and> readState w' = Inr next
     \<and> fs w' (STATE_FILE w) = Some (File (JsonText next))
     \<and> get next (js ''updatedAt'') = Some (JStr now)
     \<and> (\<forall>k. k \<noteq> js ''updatedAt'' \<longrightarrow>
           get next k = (case get (JObj kvs) k of Some v \<Rightarrow> Some v | None \<Rightarrow> get previous k))
     \<and> (\<forall>X Y now'. kvs = [(js ''current'', X)] \<longrightarrow>
           (\<exists>w'' st. writeState (JObj [(js ''self'', Y)]) now' w' = (Inr (), w'')
               \<and> readState w'' = Inr st
               \<and> get st (js ''current'') = Some X \<and> get st (js ''self'') = Some Y))"
proof -
  let ?patch = "JObj kvs"
  from assms obtain previous where
    p: "readState w = Inr previous" and
    wj: "writeJson (STATE_FILE w)
       (JObj (assign (assign (entries previous) (entries ?patch)) [(js ''updatedAt'', JStr now)])) w
     = (Inr (), w')" and
    n: "readState w'
     = Inr (JObj (assign (assign (entries previous) (entries ?patch)) [(js ''updatedAt'', JStr now)]))"
    by (rule writeState_Inr)
  let ?next = "JObj (assign (assign (entries previous) (entries ?patch)) [(js ''updatedAt'', JStr now)])"
  have f: "fs w' (STATE_FILE w) = Some (File (JsonText ?next))"
    by (simp add: writeJson_fs(1) [OF wj])
  have g: "get ?next k = (if k = js ''updatedAt'' then Some (JStr now)
                          else case get ?patch k of Some v \<Rightarrow> Some v | None \<Rightarrow> get previous k)"
    for k
    unfolding get_assign2 get_patch_obj by simp
  have two: "\<exists>w'' st. writeState (JObj [(js ''self'', Y)]) now' w' = (Inr (), w'')
               \<and> readState w'' = Inr st
               \<and> get st (js ''current'') = Some X \<and> get st (js ''self'') = Some Y"
    if kvs: "kvs = [(js ''current'', X)]" for X Y now'
  proof -
    from writeState_again [OF assms] obtain w'' where
      w2: "writeState (JObj [(js ''self'', Y)]) now' w' = (Inr (), w'')" by blast
    then obtain previous' where
      p': "readState w' = Inr previous'" and
      n': "readState w''
        = Inr (JObj (assign (assign (entries previous') (entries (JObj [(js ''self'', Y)])))
                       [(js ''updatedAt'', JStr now')]))"
      by (rule writeState_Inr)
    from p' n have pn: "previous' = ?next" by simp
    let ?st = "JObj (assign (assign (entries previous') (entries (JObj [(js ''self'', Y)])))
                       [(js ''updatedAt'', JStr now')])"
    have "get ?st (js ''current'') = get ?next (js ''current'')"
      unfolding get_assign2 get_patch_obj pn by (simp add: get_def assign_def)
    also have "\<dots> = Some X" unfolding g by (simp add: kvs get_def assign_def)
    finally have c: "get ?st (js ''current'') = Some X" .
    have s: "get ?st (js ''self'') = Some Y"
      unfolding get_assign2 get_patch_obj by (simp add: get_def assign_def)
    from w2 n' c s show ?thesis by blast
  qed
  from p n f g two show ?thesis by (intro exI [of _ previous] exI [of _ ?next]) simp
qed

theorem writeState_merges_witness:
  "fst (writeState (JObj [(js ''current'', JStr (js ''X''))]) (js ''t1'') fresh_world) = Inr ()
   \<and> (\<exists>w'' st.
         writeState (JObj [(js ''self'', JStr (js ''Y''))]) (js ''t2'')
           (snd (writeState (JObj [(js ''current'', JStr (js ''X''))]) (js ''t1'') fresh_world)) = (Inr (), w'')
         \<and> readState w'' = Inr st
         \<and> get st (js ''current'') = Some (JStr (js ''X'')) \<and> get st (js ''self'') = Some (JStr (js ''Y'')))"
proof -
  let ?w1 = "snd (writeState (JObj [(js ''current'', JStr (js ''X''))]) (js ''t1'') fresh_world)"
  have a: "fst (writeState (JObj [(js ''current'', JStr (js ''X''))]) (js ''t1'') fresh_world) = Inr ()"
    by code_simp
  then have r: "writeState (JObj [(js ''current'', JStr (js ''X''))]) (js ''t1'') fresh_world = (Inr (), ?w1)"
    by (simp add: prod_eq_iff)
  have "\<forall>X Y now'. [(js ''current'', JStr (js ''X''))] = [(js ''current'', X)] \<longrightarrow>
           (\<exists>w'' st. writeState (JObj [(js ''self'', Y)]) now' ?w1 = (Inr (), w'')
               \<and> readState w'' = Inr st
               \<and> get st (js ''current'') = Some X \<and> get st (js ''self'') = Some Y)"
    using writeState_merges [OF r] by (elim exE conjE)
  then have "[(js ''current'', JStr (js ''X''))] = [(js ''current'', JStr (js ''X''))] \<longrightarrow>
           (\<exists>w'' st. writeState (JObj [(js ''self'', JStr (js ''Y''))]) (js ''t2'') ?w1 = (Inr (), w'')
               \<and> readState w'' = Inr st
               \<and> get st (js ''current'') = Some (JStr (js ''X'')) \<and> get st (js ''self'') = Some (JStr (js ''Y'')))"
    by (elim allE)
  then have "\<exists>w'' st. writeState (JObj [(js ''self'', JStr (js ''Y''))]) (js ''t2'') ?w1 = (Inr (), w'')
               \<and> readState w'' = Inr st
               \<and> get st (js ''current'') = Some (JStr (js ''X'')) \<and> get st (js ''self'') = Some (JStr (js ''Y''))"
    by (elim impE) (rule refl)
  with a show ?thesis by (rule conjI)
qed

section \<open>The install store\<close>



















































end
